theory Spec2Isabelle
  imports Complex_Main "HOL-Library.Log_Nat"
begin

section \<open>Candles, series and the dataframe\<close>

text \<open>
  The strategy \<open>DanielsNumber1\<close> works on a pandas dataframe of hourly candles. A float is
  the real number it denotes; a float column is a list of \<open>real option\<close>, where \<open>None\<close>
  is pandas' NaN ("undefined"). The six input columns are kept row by row, so they have one length by
  construction; the input candles themselves hold no NaN.

  The thresholds the strategy computes itself (the float literals of its class attributes,
  the sums \<open>1 + pct\<close> and \<open>1 - pct\<close>, and every product of a column with a threshold)
  are IEEE double arithmetic: each literal and each result is rounded to the nearest double
  by \<open>fl\<close> below. The averages computed inside the libraries (TA-Lib, pandas' rolling
  mean) and the range position of the distribution detection are idealised as exact.
\<close>

record candle =
  date :: int
  open' :: real
  high :: real
  low :: real
  close :: real
  volume :: real

type_synonym series = "real option list"

type_synonym mask = "bool list"

text \<open>
  The dataframe: the candles and every column the strategy assigns. A column that does not
  exist yet is the empty list. \<open>post_distribution\<close> is typed as a column of optional
  booleans since the entry logic passes it through \<open>fillna(False)\<close>. pandas raises
  \<open>KeyError\<close> when a missing column is read; the strategy reads an indicator column only
  after \<open>populate_indicators\<close> has assigned it, and the predicate \<open>wf_frame\<close> below
  describes the frames on which every column read by \<open>populate_entry_trend\<close> exists.
\<close>

record dataframe =
  candles :: "candle list"
  ema_fast :: series
  ema_slow :: series
  sma_trend :: series
  bull_regime :: mask
  bear_regime :: mask
  highest :: series
  lowest :: series
  volume_sma :: series
  atr :: series
  atr_avg :: series
  post_distribution :: "bool option list"
  no_atr_spike :: mask
  enter_long :: series
  enter_short :: series

definition ohlcv_frame :: "candle list \<Rightarrow> dataframe" where
  "ohlcv_frame cs =
     \<lparr>candles = cs, ema_fast = [], ema_slow = [], sma_trend = [], bull_regime = [],
      bear_regime = [], highest = [], lowest = [], volume_sma = [], atr = [], atr_avg = [],
      post_distribution = [], no_atr_spike = [], enter_long = [], enter_short = []\<rparr>"

definition col :: "(candle \<Rightarrow> real) \<Rightarrow> dataframe \<Rightarrow> series" where
  "col f df = map (\<lambda>c. Some (f c)) (candles df)"

subsection \<open>IEEE double arithmetic\<close>

text \<open>
  Rounding to the nearest double (binary64: 53 significant bits, ties to the even
  significand, gradual underflow below \<open>2 ^ -1022\<close>). \<open>exponent x\<close> is the binade of \<open>x\<close>,
  the \<open>e\<close> with \<open>2 ^ e \<le> \<bar>x\<bar> < 2 ^ (e + 1)\<close>, not below \<open>-1022\<close>. Overflow to an infinity
  (beyond about \<open>1.8e308\<close>) is not represented: prices, volumes and their products are far
  below it.
\<close>

definition round_half_even :: "real \<Rightarrow> int" where
  "round_half_even y =
     (let f = \<lfloor>y\<rfloor>; r = y - of_int f in
      if r < 1 / 2 then f else if 1 / 2 < r then f + 1 else if even f then f else f + 1)"

definition exponent :: "real \<Rightarrow> int" where
  "exponent x =
     (let a = \<bar>x\<bar>;
          e = (if 1 \<le> a then bitlen \<lfloor>a\<rfloor> - 1 else - bitlen (\<lceil>1 / a\<rceil> - 1))
      in max e (- 1022))"

definition pow2 :: "int \<Rightarrow> real" where
  "pow2 e = (if 0 \<le> e then 2 ^ nat e else 1 / 2 ^ nat (- e))"

definition fl :: "real \<Rightarrow> real" where
  "fl x = (if x = 0 then 0
           else let u = pow2 (exponent x - 52) in of_int (round_half_even (x / u)) * u)"

definition fadd :: "real \<Rightarrow> real \<Rightarrow> real" where
  "fadd a b = fl (a + b)"

definition fsub :: "real \<Rightarrow> real \<Rightarrow> real" where
  "fsub a b = fl (a - b)"

definition fmul :: "real \<Rightarrow> real \<Rightarrow> real" where
  "fmul a b = fl (a * b)"

subsection \<open>Class attributes\<close>

text \<open>A float literal denotes the double nearest to it; \<open>2.0\<close> is a double.\<close>

definition startup_candle_count :: nat where "startup_candle_count = 250"
definition breakout_period :: nat where "breakout_period = 28"
definition volume_mult :: real where "volume_mult = fl 2.7"
definition momentum_pct :: real where "momentum_pct = fl 0.02"
definition atr_mult_max :: real where "atr_mult_max = 2.0"
definition volume_mult_short :: real where "volume_mult_short = fl 2.7"
definition momentum_pct_short :: real where "momentum_pct_short = fl 0.03"
definition volume_mult_short_boosted :: real where "volume_mult_short_boosted = fl 2.2"
definition momentum_pct_short_boosted :: real where "momentum_pct_short_boosted = fl 0.02"
definition atr_spike_threshold :: real where "atr_spike_threshold = fl 1.52"
definition atr_spike_lookback :: nat where "atr_spike_lookback = 20"
definition ema_fast_period :: nat where "ema_fast_period = 40"
definition ema_slow_period :: nat where "ema_slow_period = 80"
definition sma_trend_period :: nat where "sma_trend_period = 200"
definition momentum_lookback :: nat where "momentum_lookback = 5"
definition volume_sma_period :: nat where "volume_sma_period = 20"
definition atr_period :: nat where "atr_period = 14"
definition atr_avg_period :: nat where "atr_avg_period = 50"
definition wyckoff_period :: nat where "wyckoff_period = 48"

subsection \<open>pandas operations on series\<close>

text \<open>Comparisons with NaN on either side are False.\<close>

fun gt_o :: "real option \<Rightarrow> real option \<Rightarrow> bool" where
  "gt_o (Some a) (Some b) = (a > b)"
| "gt_o _ _ = False"

fun lt_o :: "real option \<Rightarrow> real option \<Rightarrow> bool" where
  "lt_o (Some a) (Some b) = (a < b)"
| "lt_o _ _ = False"

fun sub_o :: "real option \<Rightarrow> real option \<Rightarrow> real option" where
  "sub_o (Some a) (Some b) = Some (a - b)"
| "sub_o _ _ = None"

text \<open>
  Float division. For a zero divisor pandas yields an infinity or NaN without raising; the
  idealised model has no infinities and maps that case to \<open>None\<close>. The only division of the
  strategy replaces a zero divisor first.
\<close>

fun div_o :: "real option \<Rightarrow> real option \<Rightarrow> real option" where
  "div_o (Some a) (Some b) = (if b = 0 then None else Some (a / b))"
| "div_o _ _ = None"

definition s_gt :: "series \<Rightarrow> series \<Rightarrow> mask" where
  "s_gt xs ys = map2 gt_o xs ys"

definition s_lt :: "series \<Rightarrow> series \<Rightarrow> mask" where
  "s_lt xs ys = map2 lt_o xs ys"

definition s_gt_c :: "series \<Rightarrow> real \<Rightarrow> mask" where
  "s_gt_c xs c = map (\<lambda>x. gt_o x (Some c)) xs"

text \<open>A column times a scalar: the product of two doubles, rounded.\<close>

definition s_mul_c :: "series \<Rightarrow> real \<Rightarrow> series" where
  "s_mul_c xs c = map (map_option (\<lambda>x. fmul x c)) xs"

definition s_sub :: "series \<Rightarrow> series \<Rightarrow> series" where
  "s_sub xs ys = map2 sub_o xs ys"

definition s_div :: "series \<Rightarrow> series \<Rightarrow> series" where
  "s_div xs ys = map2 div_o xs ys"

definition s_replace :: "real \<Rightarrow> real \<Rightarrow> series \<Rightarrow> series" where
  "s_replace a b xs = map (\<lambda>x. if x = Some a then Some b else x) xs"

definition m_and :: "mask \<Rightarrow> mask \<Rightarrow> mask" where
  "m_and xs ys = map2 (\<and>) xs ys"

definition m_or :: "mask \<Rightarrow> mask \<Rightarrow> mask" where
  "m_or xs ys = map2 (\<or>) xs ys"

definition m_not :: "mask \<Rightarrow> mask" where
  "m_not xs = map Not xs"

definition fillna :: "bool \<Rightarrow> bool option list \<Rightarrow> mask" where
  "fillna d xs = map (\<lambda>x. case x of None \<Rightarrow> d | Some b \<Rightarrow> b) xs"

definition astype_float :: "mask \<Rightarrow> series" where
  "astype_float xs = map (\<lambda>b. Some (if b then 1 else 0)) xs"

text \<open>\<open>shift(k)\<close> moves every value \<open>k\<close> rows down and fills the first \<open>k\<close> rows with NaN.\<close>

definition shift :: "nat \<Rightarrow> 'a option list \<Rightarrow> 'a option list" where
  "shift k xs = take (length xs) (replicate k None @ xs)"

text \<open>
  \<open>rolling(w).agg()\<close> with the default \<open>min_periods = w\<close>: the value at row \<open>i\<close> aggregates
  rows \<open>i - w + 1 .. i\<close> and is NaN when the window is incomplete or holds a NaN.
\<close>

definition window :: "nat \<Rightarrow> 'a list \<Rightarrow> nat \<Rightarrow> 'a list" where
  "window w xs i = take w (drop (i + 1 - w) xs)"

definition aggregate :: "(real list \<Rightarrow> real) \<Rightarrow> real option list \<Rightarrow> real option" where
  "aggregate f win = map_option f (those win)"

definition rolling :: "nat \<Rightarrow> (real list \<Rightarrow> real) \<Rightarrow> series \<Rightarrow> series" where
  "rolling w f xs =
     map (\<lambda>i. if i + 1 < w then None else aggregate f (window w xs i)) [0..<length xs]"

definition maximum :: "real list \<Rightarrow> real" where
  "maximum ys = Max (set ys)"

definition minimum :: "real list \<Rightarrow> real" where
  "minimum ys = Min (set ys)"

definition mean :: "real list \<Rightarrow> real" where
  "mean ys = sum_list ys / real (length ys)"

text \<open>
  \<open>dataframe.loc[mask, column] = v\<close>: rows selected by the mask get \<open>v\<close>, the others keep
  their value, NaN where the column did not exist.
\<close>

definition loc_set :: "mask \<Rightarrow> real \<Rightarrow> series \<Rightarrow> series" where
  "loc_set m v old =
     map (\<lambda>i. if m ! i then Some v else if i < length old then old ! i else None)
       [0..<length m]"

subsection \<open>The TA-Lib indicators\<close>

text \<open>
  Modelled from the spec: the functions \<open>EMA\<close>, \<open>SMA\<close> and \<open>ATR\<close> of the TA-Lib package
  are called by the strategy and are not under src/. The spec names them as exponential
  smoothing over a fixed window, a simple average over a fixed window, and the average true
  range over a fixed window, undefined where the history is insufficient. The recurrences
  below are those of TA-Lib: the EMA of period \<open>n\<close> starts at row \<open>n - 1\<close> with the simple
  average of the first \<open>n\<close> closes and smooths with \<open>2 / (n + 1)\<close>; the ATR of period \<open>n\<close>
  starts at row \<open>n\<close> with the simple average of the true ranges of rows \<open>1 .. n\<close> and then
  follows Wilder's smoothing.
\<close>

fun ema_run :: "real \<Rightarrow> real \<Rightarrow> real list \<Rightarrow> real list" where
  "ema_run k prev [] = []"
| "ema_run k prev (x # xs) = (let e = (x - prev) * k + prev in e # ema_run k e xs)"

definition EMA :: "real list \<Rightarrow> nat \<Rightarrow> series" where
  "EMA xs n =
     (if n = 0 \<or> length xs < n then replicate (length xs) None
      else let seed = mean (take n xs) in
        replicate (n - 1) None @
        map Some (seed # ema_run (2 / (real n + 1)) seed (drop n xs)))"

definition SMA :: "real list \<Rightarrow> nat \<Rightarrow> series" where
  "SMA xs n = rolling n mean (map Some xs)"

definition tr :: "candle \<Rightarrow> candle \<Rightarrow> real" where
  "tr p c = max (high c - low c) (max \<bar>high c - close p\<bar> \<bar>low c - close p\<bar>)"

fun true_range :: "candle list \<Rightarrow> real list" where
  "true_range (p # c # cs) = tr p c # true_range (c # cs)"
| "true_range _ = []"

fun wilder_run :: "nat \<Rightarrow> real \<Rightarrow> real list \<Rightarrow> real list" where
  "wilder_run n prev [] = []"
| "wilder_run n prev (t # ts) =
     (let a = (prev * (real n - 1) + t) / real n in a # wilder_run n a ts)"

definition ATR :: "candle list \<Rightarrow> nat \<Rightarrow> series" where
  "ATR cs n =
     (let trs = true_range cs in
      if n = 0 \<or> length cs \<le> n then replicate (length cs) None
      else let seed = mean (take n trs) in
        replicate n None @ map Some (seed # wilder_run n seed (drop n trs)))"

text \<open>
  The abstract interface \<open>talib.abstract\<close> takes the dataframe and reads the columns it
  needs: \<open>close\<close> for the averages, \<open>high\<close>, \<open>low\<close> and \<open>close\<close> for the ATR.
\<close>

definition ta_EMA :: "dataframe \<Rightarrow> nat \<Rightarrow> series" where
  "ta_EMA df n = EMA (map close (candles df)) n"

definition ta_SMA :: "dataframe \<Rightarrow> nat \<Rightarrow> series" where
  "ta_SMA df n = SMA (map close (candles df)) n"

definition ta_ATR :: "dataframe \<Rightarrow> nat \<Rightarrow> series" where
  "ta_ATR df n = ATR (candles df) n"

section \<open>The strategy\<close>

subsection \<open>populate_indicators\<close>

definition range_high :: "dataframe \<Rightarrow> series" where
  "range_high df = rolling wyckoff_period maximum (col high df)"

definition range_low :: "dataframe \<Rightarrow> series" where
  "range_low df = rolling wyckoff_period minimum (col low df)"

definition range_size :: "dataframe \<Rightarrow> series" where
  "range_size df = s_sub (range_high df) (range_low df)"

definition range_divisor :: "dataframe \<Rightarrow> series" where
  "range_divisor df = s_replace 0 (1 / 10 ^ 10) (range_size df)"

definition range_position :: "dataframe \<Rightarrow> series" where
  "range_position df = s_div (s_sub (col close df) (range_low df)) (range_divisor df)"

definition atr_compressed :: "dataframe \<Rightarrow> mask" where
  "atr_compressed df = s_lt (atr df) (atr_avg df)"

definition distribution :: "dataframe \<Rightarrow> mask" where
  "distribution df = m_and (atr_compressed df) (s_gt_c (range_position df) 0.5)"

definition atr_recent_min :: "dataframe \<Rightarrow> series" where
  "atr_recent_min df = rolling atr_spike_lookback minimum (atr df)"

definition populate_indicators :: "dataframe \<Rightarrow> dataframe" where
  "populate_indicators dataframe0 =
     (let dataframe = dataframe0\<lparr>ema_fast := ta_EMA dataframe0 ema_fast_period\<rparr>;
          dataframe = dataframe\<lparr>ema_slow := ta_EMA dataframe ema_slow_period\<rparr>;
          dataframe = dataframe\<lparr>sma_trend := ta_SMA dataframe sma_trend_period\<rparr>;
          dataframe = dataframe\<lparr>bull_regime := s_gt (ema_fast dataframe) (ema_slow dataframe)\<rparr>;
          dataframe = dataframe\<lparr>bear_regime :=
            m_and (s_lt (ema_fast dataframe) (ema_slow dataframe))
                  (s_lt (col close dataframe) (sma_trend dataframe))\<rparr>;
          dataframe = dataframe\<lparr>highest :=
            shift 1 (rolling breakout_period maximum (col high dataframe))\<rparr>;
          dataframe = dataframe\<lparr>lowest :=
            shift 1 (rolling breakout_period minimum (col low dataframe))\<rparr>;
          dataframe = dataframe\<lparr>volume_sma :=
            rolling volume_sma_period mean (col volume dataframe)\<rparr>;
          dataframe = dataframe\<lparr>atr := ta_ATR dataframe atr_period\<rparr>;
          dataframe = dataframe\<lparr>atr_avg := rolling atr_avg_period mean (atr dataframe)\<rparr>;
          dataframe = dataframe\<lparr>post_distribution :=
            map Some (s_gt_c (shift 1 (rolling wyckoff_period maximum
              (astype_float (distribution dataframe)))) 0)\<rparr>;
          dataframe = dataframe\<lparr>no_atr_spike :=
            m_not (s_gt (atr dataframe) (s_mul_c (atr_recent_min dataframe) atr_spike_threshold))\<rparr>
      in dataframe)"

subsection \<open>populate_entry_trend\<close>

definition vol_surge :: "dataframe \<Rightarrow> mask" where
  "vol_surge df = s_gt (col volume df) (s_mul_c (volume_sma df) volume_mult)"

definition mom_up :: "dataframe \<Rightarrow> mask" where
  "mom_up df =
     s_gt (col close df)
       (s_mul_c (shift momentum_lookback (col close df)) (fadd 1 momentum_pct))"

definition volatility_ok :: "dataframe \<Rightarrow> mask" where
  "volatility_ok df = s_lt (atr df) (s_mul_c (atr_avg df) atr_mult_max)"

definition long_mask :: "dataframe \<Rightarrow> mask" where
  "long_mask df =
     m_and (m_and (m_and (m_and (m_and (bull_regime df)
       (s_gt (col close df) (highest df)))
       (s_gt (col close df) (ema_slow df)))
       (vol_surge df)) (mom_up df)) (volatility_ok df)"

definition vol_surge_short :: "dataframe \<Rightarrow> mask" where
  "vol_surge_short df = s_gt (col volume df) (s_mul_c (volume_sma df) volume_mult_short)"

definition mom_down :: "dataframe \<Rightarrow> mask" where
  "mom_down df =
     s_lt (col close df)
       (s_mul_c (shift momentum_lookback (col close df)) (fsub 1 momentum_pct_short))"

definition vol_surge_short_boosted :: "dataframe \<Rightarrow> mask" where
  "vol_surge_short_boosted df =
     s_gt (col volume df) (s_mul_c (volume_sma df) volume_mult_short_boosted)"

definition mom_down_boosted :: "dataframe \<Rightarrow> mask" where
  "mom_down_boosted df =
     s_lt (col close df)
       (s_mul_c (shift momentum_lookback (col close df)) (fsub 1 momentum_pct_short_boosted))"

definition short_base :: "dataframe \<Rightarrow> mask" where
  "short_base df =
     m_and (m_and (m_and (m_and (bear_regime df)
       (s_lt (col close df) (lowest df)))
       (s_lt (col close df) (ema_slow df)))
       (volatility_ok df)) (no_atr_spike df)"

definition short_mask :: "dataframe \<Rightarrow> mask" where
  "short_mask df =
     m_and (short_base df)
       (m_or (m_and (vol_surge_short df) (mom_down df))
             (m_and (m_and (fillna False (post_distribution df)) (vol_surge_short_boosted df))
                    (mom_down_boosted df)))"

definition populate_entry_trend :: "dataframe \<Rightarrow> dataframe" where
  "populate_entry_trend dataframe0 =
     (let dataframe = dataframe0\<lparr>enter_long := loc_set (long_mask dataframe0) 1 (enter_long dataframe0)\<rparr>;
          dataframe = dataframe\<lparr>enter_short := loc_set (short_mask dataframe) 1 (enter_short dataframe)\<rparr>
      in dataframe)"

text \<open>The strategy run on a fresh frame of candles, as the host framework calls it.\<close>

definition analyze :: "candle list \<Rightarrow> dataframe" where
  "analyze cs = populate_entry_trend (populate_indicators (ohlcv_frame cs))"

section \<open>Well-formed frames and concrete series\<close>

text \<open>Every column a pandas dataframe holds has the length of its index.\<close>

definition wf_frame :: "dataframe \<Rightarrow> bool" where
  "wf_frame df =
     (let n = length (candles df) in
      length (ema_fast df) = n \<and> length (ema_slow df) = n \<and> length (sma_trend df) = n \<and>
      length (bull_regime df) = n \<and> length (bear_regime df) = n \<and>
      length (highest df) = n \<and> length (lowest df) = n \<and> length (volume_sma df) = n \<and>
      length (atr df) = n \<and> length (atr_avg df) = n \<and>
      length (post_distribution df) = n \<and> length (no_atr_spike df) = n)"

text \<open>A quiet candle and a breakout candle, for concrete runs of the strategy.\<close>

definition quiet :: candle where
  "quiet = \<lparr>date = 0, open' = 100, high = 101, low = 99, close = 100, volume = 1\<rparr>"

definition breakout :: candle where
  "breakout = \<lparr>date = 0, open' = 100, high = 103, low = 100, close = 103, volume = 100\<rparr>"

text \<open>The first \<open>m\<close> rows of a frame (\<open>df.iloc[:m]\<close>), for comparing runs on a prefix.\<close>

definition take_df :: "nat \<Rightarrow> dataframe \<Rightarrow> dataframe" where
  "take_df m df =
     \<lparr>candles = take m (candles df), ema_fast = take m (ema_fast df),
      ema_slow = take m (ema_slow df), sma_trend = take m (sma_trend df),
      bull_regime = take m (bull_regime df), bear_regime = take m (bear_regime df),
      highest = take m (highest df), lowest = take m (lowest df),
      volume_sma = take m (volume_sma df), atr = take m (atr df),
      atr_avg = take m (atr_avg df), post_distribution = take m (post_distribution df),
      no_atr_spike = take m (no_atr_spike df), enter_long = take m (enter_long df),
      enter_short = take m (enter_short df)\<rparr>"

text \<open>
  Three concrete series: 99 quiet candles and a breakout upwards; 199 quiet candles and a
  breakdown; 63 quiet candles, one calm candle near the top of the range, one more quiet
  candle.
\<close>

definition breakdown :: candle where
  "breakdown = \<lparr>date = 0, open' = 100, high = 100, low = 96, close = 96, volume = 100\<rparr>"

definition calm :: candle where
  "calm = \<lparr>date = 0, open' = 100, high = 101, low = 100, close = 101, volume = 1\<rparr>"

definition up_series :: "candle list" where
  "up_series = replicate 99 quiet @ [breakout]"



text \<open>
  A second family of series around the price 1, where the momentum thresholds are not
  doubles: 99 (or 199) unit candles followed by a candle that closes exactly at the double
  nearest \<open>1.02\<close> (or \<open>0.97\<close>); and a breakdown that meets the boosted thresholds only.
\<close>

definition unit_candle :: candle where
  "unit_candle = \<lparr>date = 0, open' = 1, high = 129 / 128, low = 127 / 128, close = 1, volume = 1\<rparr>"

definition edge_up :: candle where
  "edge_up = \<lparr>date = 0, open' = 1, high = fl 1.02, low = 1, close = fl 1.02, volume = 100\<rparr>"

definition edge_down :: candle where
  "edge_down = \<lparr>date = 0, open' = 1, high = 1, low = fl 0.97, close = fl 0.97, volume = 100\<rparr>"

definition soft_breakdown :: candle where
  "soft_breakdown =
     \<lparr>date = 0, open' = 100, high = 100, low = 97.5, close = 97.5, volume = 100\<rparr>"



definition soft_series :: "candle list" where
  "soft_series = replicate 199 quiet @ [soft_breakdown]"

text \<open>
  The indicator frame of the soft breakdown with the \<open>post_distribution\<close> column replaced
  by hand: once all undefined, once all true.
\<close>

definition soft_frame :: "bool option \<Rightarrow> dataframe" where
  "soft_frame p =
     (populate_indicators (ohlcv_frame soft_series))\<lparr>post_distribution := replicate 200 p\<rparr>"

section \<open>Properties of the series operations\<close>

lemma length_shift [simp]: "length (shift k xs) = length xs"
  by (simp add: shift_def)

lemma length_rolling [simp]: "length (rolling w f xs) = length xs"
  by (simp add: rolling_def)

lemma nth_shift: "i < length xs \<Longrightarrow> shift k xs ! i = (if i < k then None else xs ! (i - k))"
  by (simp add: shift_def nth_append)

lemma take_shift: "take m (shift k xs) = shift k (take m xs)"
  by (rule nth_equalityI) (auto simp: nth_shift)

lemma nth_rolling:
  "i < length xs \<Longrightarrow>
   rolling w f xs ! i = (if i + 1 < w then None else aggregate f (window w xs i))"
  by (simp add: rolling_def)

lemma window_take: "i < m \<Longrightarrow> w \<le> i + 1 \<Longrightarrow> window w (take m xs) i = window w xs i"
proof -
  assume "i < m" "w \<le> i + 1"
  then have "min w (m - (i + 1 - w)) = w" by arith
  then show ?thesis by (simp add: window_def drop_take)
qed

lemma take_rolling: "take m (rolling w f xs) = rolling w f (take m xs)"
  by (rule nth_equalityI) (simp_all add: nth_rolling window_take)

lemma window_nth_conv:
  "w \<le> i + 1 \<Longrightarrow> i < length xs \<Longrightarrow> window w xs i = map ((!) xs) [i + 1 - w..<i + 1]"
  by (rule nth_equalityI) (auto simp: window_def simp del: upt_Suc)

lemma those_map_Some [simp]: "those (map Some ys) = Some ys"
  by (induction ys) simp_all

lemma those_eq_None_iff: "those xs = None \<longleftrightarrow> None \<in> set xs"
  by (induction xs) (auto split: option.splits)


lemma length_ema_run [simp]: "length (ema_run k p xs) = length xs"
  by (induction xs arbitrary: p) (simp_all add: Let_def)

lemma length_EMA [simp]: "length (EMA xs n) = length xs"
  by (auto simp: EMA_def Let_def)

lemma take_ema_run: "take m (ema_run k p xs) = ema_run k p (take m xs)"
proof (induction xs arbitrary: p m)
  case Nil
  then show ?case by simp
next
  case (Cons x xs)
  then show ?case by (cases m) (simp_all add: Let_def)
qed

lemma take_EMA: "take m (EMA xs n) = EMA (take m xs) n"
proof (cases "n = 0 \<or> length xs < n")
  case True
  then show ?thesis by (auto simp: EMA_def min_def)
next
  case False
  then have n: "0 < n" "n \<le> length xs" by simp_all
  show ?thesis
  proof (cases "m < n")
    case True
    with n show ?thesis by (simp add: EMA_def Let_def min_def)
  next
    case False
    then obtain d where m: "m = n + d" using le_Suc_ex by (metis not_less)
    with n show ?thesis
      by (auto simp: EMA_def Let_def min_def take_ema_run drop_take take_map)
  qed
qed

lemma ema_run_rec:
  "j < length ys \<Longrightarrow>
   (p # ema_run k p ys) ! Suc j =
     (ys ! j - (p # ema_run k p ys) ! j) * k + (p # ema_run k p ys) ! j"
proof (induction ys arbitrary: p j)
  case Nil
  then show ?case by simp
next
  case (Cons y ys)
  then show ?case by (cases j) (simp_all add: Let_def)
qed

lemma EMA_nth_None: "i < length xs \<Longrightarrow> i + 1 < n \<Longrightarrow> EMA xs n ! i = None"
  by (auto simp: EMA_def Let_def nth_append)

lemma nth_Some_Cons: "j \<le> length L \<Longrightarrow> (Some s # map Some L) ! j = Some ((s # L) ! j)"
  by (cases j) simp_all

lemma EMA_nth:
  "0 < n \<Longrightarrow> n \<le> i + 1 \<Longrightarrow> i < length xs \<Longrightarrow>
   EMA xs n ! i =
     Some ((mean (take n xs) # ema_run (2 / (real n + 1)) (mean (take n xs)) (drop n xs))
            ! (i + 1 - n))"
proof -
  assume a: "0 < n" "n \<le> i + 1" "i < length xs"
  then have "i - (n - 1) = i + 1 - n" "\<not> i < n - 1" "i + 1 - n \<le> length xs - n"
    by arith+
  with a show ?thesis
    by (simp add: EMA_def Let_def nth_append nth_Some_Cons del: nth_Cons_Suc)
qed

lemma EMA_seed: "0 < n \<Longrightarrow> n \<le> length xs \<Longrightarrow> EMA xs n ! (n - 1) = Some (mean (take n xs))"
  using EMA_nth [of n "n - 1" xs] by simp

lemma EMA_step:
  assumes "0 < n" "n \<le> i" "i < length xs" "EMA xs n ! (i - 1) = Some e"
  shows "EMA xs n ! i = Some ((xs ! i - e) * (2 / (real n + 1)) + e)"
proof -
  let ?k = "2 / (real n + 1)"
  let ?L = "mean (take n xs) # ema_run ?k (mean (take n xs)) (drop n xs)"
  have j: "i - n < length (drop n xs)" "i + 1 - n = Suc (i - n)" "i - 1 + 1 - n = i - n"
    using assms by simp_all
  have "EMA xs n ! (i - 1) = Some (?L ! (i - n))"
    using EMA_nth [of n "i - 1" xs] assms j by simp
  with assms have e: "?L ! (i - n) = e" by simp
  have "EMA xs n ! i = Some (?L ! Suc (i - n))"
    using EMA_nth [of n i xs] assms j by simp
  also have "?L ! Suc (i - n) = (drop n xs ! (i - n) - ?L ! (i - n)) * ?k + ?L ! (i - n)"
    using j(1) by (rule ema_run_rec)
  also have "drop n xs ! (i - n) = xs ! i" using assms by simp
  finally show ?thesis using e by simp
qed

lemma length_true_range [simp]: "length (true_range cs) = length cs - 1"
  by (induction cs rule: true_range.induct) simp_all

lemma nth_true_range: "Suc j < length cs \<Longrightarrow> true_range cs ! j = tr (cs ! j) (cs ! Suc j)"
proof (induction cs arbitrary: j rule: true_range.induct)
  case (1 p c cs)
  then show ?case by (cases j) simp_all
qed simp_all

lemma take_true_range: "take m (true_range cs) = true_range (take (Suc m) cs)"
  by (rule nth_equalityI) (auto simp: nth_true_range)

lemma length_wilder_run [simp]: "length (wilder_run n p ts) = length ts"
  by (induction ts arbitrary: p) (simp_all add: Let_def)

lemma take_wilder_run: "take m (wilder_run n p ts) = wilder_run n p (take m ts)"
proof (induction ts arbitrary: p m)
  case Nil
  then show ?case by simp
next
  case (Cons t ts)
  then show ?case by (cases m) (simp_all add: Let_def)
qed

lemma wilder_run_rec:
  "j < length ts \<Longrightarrow>
   (p # wilder_run n p ts) ! Suc j = ((p # wilder_run n p ts) ! j * (real n - 1) + ts ! j) / real n"
proof (induction ts arbitrary: p j)
  case Nil
  then show ?case by simp
next
  case (Cons t ts)
  then show ?case by (cases j) (simp_all add: Let_def)
qed

lemma length_ATR [simp]: "length (ATR cs n) = length cs"
  by (auto simp: ATR_def Let_def)


lemma ATR_nth:
  "0 < n \<Longrightarrow> n \<le> i \<Longrightarrow> i < length cs \<Longrightarrow>
   ATR cs n ! i =
     Some ((mean (take n (true_range cs)) #
            wilder_run n (mean (take n (true_range cs))) (drop n (true_range cs))) ! (i - n))"
proof -
  assume a: "0 < n" "n \<le> i" "i < length cs"
  then have "i - n \<le> length cs - 1 - n" by arith
  with a show ?thesis
    by (simp add: ATR_def Let_def nth_append nth_Some_Cons del: nth_Cons_Suc)
qed

lemma ATR_seed:
  "0 < n \<Longrightarrow> n < length cs \<Longrightarrow> ATR cs n ! n = Some (mean (take n (true_range cs)))"
  using ATR_nth [of n n cs] by simp

lemma ATR_step:
  assumes "0 < n" "n < i" "i < length cs" "ATR cs n ! (i - 1) = Some a"
  shows "ATR cs n ! i = Some ((a * (real n - 1) + tr (cs ! (i - 1)) (cs ! i)) / real n)"
proof -
  let ?s = "mean (take n (true_range cs))"
  let ?L = "?s # wilder_run n ?s (drop n (true_range cs))"
  obtain j where j: "i = Suc (n + j)" using assms(2) less_iff_Suc_add by auto
  have len: "j < length (drop n (true_range cs))" using assms j by simp
  have "ATR cs n ! (i - 1) = Some (?L ! j)"
    using ATR_nth [of n "i - 1" cs] assms j by simp
  with assms have a: "?L ! j = a" by simp
  have "ATR cs n ! i = Some (?L ! Suc j)"
    using ATR_nth [of n i cs] assms j by simp
  also have "?L ! Suc j = (?L ! j * (real n - 1) + drop n (true_range cs) ! j) / real n"
    using len by (rule wilder_run_rec)
  also have "drop n (true_range cs) ! j = tr (cs ! (i - 1)) (cs ! i)"
    using assms j by (simp add: nth_true_range)
  finally show ?thesis using a by simp
qed

lemma take_ATR: "take m (ATR cs n) = ATR (take m cs) n"
proof (cases "n = 0 \<or> length cs \<le> n")
  case True
  then show ?thesis by (auto simp: ATR_def min_def)
next
  case False
  then have n: "0 < n" "n < length cs" by simp_all
  show ?thesis
  proof (cases "m \<le> n")
    case True
    with n show ?thesis by (simp add: ATR_def Let_def min_def)
  next
    case False
    then obtain d where m: "m = Suc (n + d)" using less_iff_Suc_add by (metis not_le)
    have "take n (true_range (take m cs)) = take n (true_range cs)"
      using m take_true_range [of "n + d" cs, symmetric] by (simp add: min_def)
    moreover have "drop n (true_range (take m cs)) = take d (drop n (true_range cs))"
      using m take_true_range [of "n + d" cs, symmetric] by (simp add: drop_take)
    ultimately show ?thesis using n m
      by (auto simp: ATR_def Let_def min_def take_wilder_run take_map)
  qed
qed

lemma nth_s_gt: "i < length xs \<Longrightarrow> i < length ys \<Longrightarrow> s_gt xs ys ! i = gt_o (xs ! i) (ys ! i)"
  by (simp add: s_gt_def)

lemma nth_s_lt: "i < length xs \<Longrightarrow> i < length ys \<Longrightarrow> s_lt xs ys ! i = lt_o (xs ! i) (ys ! i)"
  by (simp add: s_lt_def)

lemma nth_s_sub: "i < length xs \<Longrightarrow> i < length ys \<Longrightarrow> s_sub xs ys ! i = sub_o (xs ! i) (ys ! i)"
  by (simp add: s_sub_def)

lemma nth_s_div: "i < length xs \<Longrightarrow> i < length ys \<Longrightarrow> s_div xs ys ! i = div_o (xs ! i) (ys ! i)"
  by (simp add: s_div_def)

lemma nth_m_and: "i < length xs \<Longrightarrow> i < length ys \<Longrightarrow> m_and xs ys ! i = (xs ! i \<and> ys ! i)"
  by (simp add: m_and_def)

lemma nth_m_or: "i < length xs \<Longrightarrow> i < length ys \<Longrightarrow> m_or xs ys ! i = (xs ! i \<or> ys ! i)"
  by (simp add: m_or_def)

lemma nth_m_not: "i < length xs \<Longrightarrow> m_not xs ! i = (\<not> xs ! i)"
  by (simp add: m_not_def)

lemma nth_s_gt_c: "i < length xs \<Longrightarrow> s_gt_c xs c ! i = gt_o (xs ! i) (Some c)"
  by (simp add: s_gt_c_def)

lemma nth_s_mul_c: "i < length xs \<Longrightarrow> s_mul_c xs c ! i = map_option (\<lambda>x. fmul x c) (xs ! i)"
  by (simp add: s_mul_c_def)

lemma nth_s_replace:
  "i < length xs \<Longrightarrow> s_replace a b xs ! i = (if xs ! i = Some a then Some b else xs ! i)"
  by (simp add: s_replace_def)

lemma nth_fillna:
  "i < length xs \<Longrightarrow> fillna d xs ! i = (case xs ! i of None \<Rightarrow> d | Some b \<Rightarrow> b)"
  by (simp add: fillna_def)

lemma nth_astype_float: "i < length xs \<Longrightarrow> astype_float xs ! i = Some (if xs ! i then 1 else 0)"
  by (simp add: astype_float_def)

lemma nth_col: "i < length (candles df) \<Longrightarrow> col f df ! i = Some (f (candles df ! i))"
  by (simp add: col_def)

lemma nth_loc_set:
  "i < length m \<Longrightarrow>
   loc_set m v old ! i = (if m ! i then Some v else if i < length old then old ! i else None)"
  by (simp add: loc_set_def)

lemma length_ops [simp]:
  "length (s_gt xs ys) = min (length xs) (length ys)"
  "length (s_lt xs ys) = min (length xs) (length ys)"
  "length (s_sub xs ys) = min (length xs) (length ys)"
  "length (s_div xs ys) = min (length xs) (length ys)"
  "length (m_and bs cs) = min (length bs) (length cs)"
  "length (m_or bs cs) = min (length bs) (length cs)"
  "length (m_not bs) = length bs"
  "length (s_gt_c xs c) = length xs"
  "length (s_mul_c xs c) = length xs"
  "length (s_replace a b xs) = length xs"
  "length (fillna d ps) = length ps"
  "length (astype_float bs) = length bs"
  "length (col f df) = length (candles df)"
  "length (loc_set bs v old) = length bs"
  "length (SMA zs n) = length zs"
  by (simp_all add: s_gt_def s_lt_def s_sub_def s_div_def m_and_def m_or_def m_not_def
      s_gt_c_def s_mul_c_def s_replace_def fillna_def astype_float_def col_def loc_set_def
      SMA_def)

lemma distribution_cong:
  "candles a = candles b \<Longrightarrow> atr a = atr b \<Longrightarrow> atr_avg a = atr_avg b \<Longrightarrow>
   distribution a = distribution b"
  by (simp add: distribution_def atr_compressed_def range_position_def range_divisor_def
      range_size_def range_high_def range_low_def col_def)

lemma populate_indicators_columns:
  "candles (populate_indicators df) = candles df"
  "ema_fast (populate_indicators df) = EMA (map close (candles df)) ema_fast_period"
  "ema_slow (populate_indicators df) = EMA (map close (candles df)) ema_slow_period"
  "sma_trend (populate_indicators df) = SMA (map close (candles df)) sma_trend_period"
  "bull_regime (populate_indicators df) =
     s_gt (ema_fast (populate_indicators df)) (ema_slow (populate_indicators df))"
  "bear_regime (populate_indicators df) =
     m_and (s_lt (ema_fast (populate_indicators df)) (ema_slow (populate_indicators df)))
           (s_lt (col close df) (sma_trend (populate_indicators df)))"
  "highest (populate_indicators df) = shift 1 (rolling breakout_period maximum (col high df))"
  "lowest (populate_indicators df) = shift 1 (rolling breakout_period minimum (col low df))"
  "volume_sma (populate_indicators df) = rolling volume_sma_period mean (col volume df)"
  "atr (populate_indicators df) = ATR (candles df) atr_period"
  "atr_avg (populate_indicators df) = rolling atr_avg_period mean (ATR (candles df) atr_period)"
  "no_atr_spike (populate_indicators df) =
     m_not (s_gt (atr (populate_indicators df))
       (s_mul_c (rolling atr_spike_lookback minimum (atr (populate_indicators df)))
          atr_spike_threshold))"
  "enter_long (populate_indicators df) = enter_long df"
  "enter_short (populate_indicators df) = enter_short df"
  by (simp_all add: populate_indicators_def Let_def ta_EMA_def ta_SMA_def ta_ATR_def col_def
      atr_recent_min_def)

lemma populate_indicators_post_distribution:
  "post_distribution (populate_indicators df) =
     map Some (s_gt_c (shift 1 (rolling wyckoff_period maximum
       (astype_float (distribution (populate_indicators df))))) 0)"
  by (simp add: populate_indicators_def Let_def ta_EMA_def ta_SMA_def ta_ATR_def col_def
      distribution_def atr_compressed_def range_position_def range_divisor_def
      range_size_def range_high_def range_low_def)

section \<open>Properties of the strategy's columns\<close>

lemma length_range_position [simp]: "length (range_position df) = length (candles df)"
  by (simp add: range_position_def range_divisor_def range_size_def range_high_def
      range_low_def)

lemma length_distribution:
  "length (distribution df) =
     min (min (length (atr df)) (length (atr_avg df))) (length (candles df))"
  by (simp add: distribution_def atr_compressed_def)

lemma wf_populate_indicators: "wf_frame (populate_indicators df)"
  by (simp add: wf_frame_def Let_def populate_indicators_columns
      populate_indicators_post_distribution length_distribution)

lemma long_mask_nth:
  assumes "wf_frame df" "i < length (candles df)"
  shows "long_mask df ! i =
    (bull_regime df ! i \<and>
     gt_o (Some (close (candles df ! i))) (highest df ! i) \<and>
     gt_o (Some (close (candles df ! i))) (ema_slow df ! i) \<and>
     gt_o (Some (volume (candles df ! i))) (map_option (\<lambda>x. fmul x volume_mult) (volume_sma df ! i)) \<and>
     gt_o (Some (close (candles df ! i)))
       (map_option (\<lambda>x. fmul x (fadd 1 momentum_pct)) (shift momentum_lookback (col close df) ! i)) \<and>
     lt_o (atr df ! i) (map_option (\<lambda>x. fmul x atr_mult_max) (atr_avg df ! i)))"
  using assms
  by (simp add: long_mask_def vol_surge_def mom_up_def volatility_ok_def nth_m_and nth_s_gt
      nth_s_lt nth_s_mul_c nth_col wf_frame_def Let_def)

lemma short_base_nth:
  assumes "wf_frame df" "i < length (candles df)"
  shows "short_base df ! i =
    (bear_regime df ! i \<and>
     lt_o (Some (close (candles df ! i))) (lowest df ! i) \<and>
     lt_o (Some (close (candles df ! i))) (ema_slow df ! i) \<and>
     lt_o (atr df ! i) (map_option (\<lambda>x. fmul x atr_mult_max) (atr_avg df ! i)) \<and>
     no_atr_spike df ! i)"
  using assms
  by (simp add: short_base_def volatility_ok_def nth_m_and nth_s_gt
      nth_s_lt nth_s_mul_c nth_col wf_frame_def Let_def)

lemma length_short_base: "wf_frame df \<Longrightarrow> length (short_base df) = length (candles df)"
  by (simp add: short_base_def volatility_ok_def wf_frame_def Let_def)

lemma short_mask_nth:
  assumes "wf_frame df" "i < length (candles df)"
  shows "short_mask df ! i =
    (short_base df ! i \<and>
     (gt_o (Some (volume (candles df ! i)))
        (map_option (\<lambda>x. fmul x volume_mult_short) (volume_sma df ! i)) \<and>
      lt_o (Some (close (candles df ! i)))
        (map_option (\<lambda>x. fmul x (fsub 1 momentum_pct_short))
          (shift momentum_lookback (col close df) ! i)) \<or>
      (case post_distribution df ! i of None \<Rightarrow> False | Some b \<Rightarrow> b) \<and>
      gt_o (Some (volume (candles df ! i)))
        (map_option (\<lambda>x. fmul x volume_mult_short_boosted) (volume_sma df ! i)) \<and>
      lt_o (Some (close (candles df ! i)))
        (map_option (\<lambda>x. fmul x (fsub 1 momentum_pct_short_boosted))
          (shift momentum_lookback (col close df) ! i))))"
  using assms length_short_base [OF assms(1)]
  by (simp add: short_mask_def vol_surge_short_def mom_down_def vol_surge_short_boosted_def
      mom_down_boosted_def nth_m_and nth_m_or nth_s_gt nth_s_lt nth_s_mul_c nth_col nth_fillna
      wf_frame_def Let_def)

lemma length_long_mask: "wf_frame df \<Longrightarrow> length (long_mask df) = length (candles df)"
  by (simp add: long_mask_def vol_surge_def mom_up_def volatility_ok_def wf_frame_def Let_def)

lemma length_short_mask: "wf_frame df \<Longrightarrow> length (short_mask df) = length (candles df)"
  using length_short_base [of df]
  by (simp add: short_mask_def vol_surge_short_def mom_down_def vol_surge_short_boosted_def
      mom_down_boosted_def wf_frame_def Let_def)

lemma short_mask_enter_long_update: "short_mask (df\<lparr>enter_long := x\<rparr>) = short_mask df"
  by (simp add: short_mask_def short_base_def volatility_ok_def vol_surge_short_def
      mom_down_def vol_surge_short_boosted_def mom_down_boosted_def col_def)

lemma populate_entry_trend_columns:
  "candles (populate_entry_trend df) = candles df"
  "enter_long (populate_entry_trend df) = loc_set (long_mask df) 1 (enter_long df)"
  "enter_short (populate_entry_trend df) = loc_set (short_mask df) 1 (enter_short df)"
  by (simp_all add: populate_entry_trend_def Let_def short_mask_enter_long_update)

lemma candles_ohlcv_frame [simp]: "candles (ohlcv_frame cs) = cs"
  by (simp add: ohlcv_frame_def)

lemma enter_long_analyze:
  "i < length cs \<Longrightarrow>
   enter_long (analyze cs) ! i =
     (if long_mask (populate_indicators (ohlcv_frame cs)) ! i then Some 1 else None)"
  using length_long_mask [OF wf_populate_indicators, of "ohlcv_frame cs"]
  by (simp add: analyze_def populate_entry_trend_columns populate_indicators_columns
      nth_loc_set ohlcv_frame_def)

lemma enter_short_analyze:
  "i < length cs \<Longrightarrow>
   enter_short (analyze cs) ! i =
     (if short_mask (populate_indicators (ohlcv_frame cs)) ! i then Some 1 else None)"
  using length_short_mask [OF wf_populate_indicators, of "ohlcv_frame cs"]
  by (simp add: analyze_def populate_entry_trend_columns populate_indicators_columns
      nth_loc_set ohlcv_frame_def)

lemma gt_o_lt_o_exclusive: "gt_o a b \<Longrightarrow> lt_o a b \<Longrightarrow> False"
  by (cases a; cases b) simp_all

lemma those_map_Some_fun [simp]: "those (map (\<lambda>x. Some (h x)) ys) = Some (map h ys)"
  by (induction ys) simp_all

lemma those_map_Some_comp [simp]: "those (map (Some \<circ> h) ys) = Some (map h ys)"
  by (simp add: comp_def)

lemma rolling_col_nth:
  assumes "i < length (candles df)" "0 < w"
  shows "rolling w f (col g df) ! i =
    (if i + 1 < w then None
     else Some (f (map (\<lambda>j. g (candles df ! j)) [i + 1 - w..<i + 1])))"
proof (cases "i + 1 < w")
  case True
  with assms show ?thesis by (simp add: nth_rolling)
next
  case False
  then have w: "w \<le> i + 1" by simp
  have "window w (col g df) i = map ((!) (col g df)) [i + 1 - w..<i + 1]"
    using w assms by (simp add: window_nth_conv)
  also have "\<dots> = map Some (map (\<lambda>j. g (candles df ! j)) [i + 1 - w..<i + 1])"
    using assms by (auto simp: nth_col)
  finally show ?thesis using assms False
    by (simp add: nth_rolling aggregate_def del: upt_Suc)
qed

lemma maximum_map_upt:
  "a < b \<Longrightarrow> maximum (map h [a..<b]) = Max (h ` {a..<b})"
  by (simp add: maximum_def)

lemma minimum_map_upt:
  "a < b \<Longrightarrow> minimum (map h [a..<b]) = Min (h ` {a..<b})"
  by (simp add: minimum_def)

lemma mean_map_upt:
  "mean (map h [a..<b]) = (\<Sum>j = a..<b. h j) / real (b - a)"
  by (simp add: mean_def interv_sum_list_conv_sum_set_nat)

lemma image_const_interval:
  fixes h :: "nat \<Rightarrow> 'a"
  assumes "a < b" "\<And>j. a \<le> j \<Longrightarrow> j < b \<Longrightarrow> h j = c"
  shows "h ` {a..<b} = {c}"
proof -
  have "h ` {a..<b} = (\<lambda>j. c) ` {a..<b}" using assms(2) by (intro image_cong) simp_all
  then show ?thesis using assms(1) by (simp add: image_constant_conv)
qed

lemma populate_entry_trend_keeps:
  "ema_fast (populate_entry_trend df) = ema_fast df"
  "ema_slow (populate_entry_trend df) = ema_slow df"
  "sma_trend (populate_entry_trend df) = sma_trend df"
  "bull_regime (populate_entry_trend df) = bull_regime df"
  "bear_regime (populate_entry_trend df) = bear_regime df"
  "highest (populate_entry_trend df) = highest df"
  "lowest (populate_entry_trend df) = lowest df"
  "volume_sma (populate_entry_trend df) = volume_sma df"
  "atr (populate_entry_trend df) = atr df"
  "atr_avg (populate_entry_trend df) = atr_avg df"
  "post_distribution (populate_entry_trend df) = post_distribution df"
  "no_atr_spike (populate_entry_trend df) = no_atr_spike df"
  by (simp_all add: populate_entry_trend_def Let_def)

lemma highest_nth:
  assumes "i < length (candles df)"
  shows "highest (populate_indicators df) ! i =
    (if i < 28 then None else Some (Max ((\<lambda>j. high (candles df ! j)) ` {i - 28..<i})))"
proof (cases "i < 28")
  case True
  with assms show ?thesis
    by (cases i) (simp_all add: populate_indicators_columns nth_shift rolling_col_nth
        breakout_period_def)
next
  case False
  then obtain i' where i': "i = Suc i'" "27 \<le> i'" by (cases i) simp_all
  with assms have "rolling 28 maximum (col high df) ! i' =
      Some (maximum (map (\<lambda>j. high (candles df ! j)) [i' + 1 - 28..<i' + 1]))"
    by (simp add: rolling_col_nth)
  with assms i' show ?thesis
    by (simp add: populate_indicators_columns nth_shift breakout_period_def
        maximum_map_upt del: upt_Suc)
qed

lemma lowest_nth:
  assumes "i < length (candles df)"
  shows "lowest (populate_indicators df) ! i =
    (if i < 28 then None else Some (Min ((\<lambda>j. low (candles df ! j)) ` {i - 28..<i})))"
proof (cases "i < 28")
  case True
  with assms show ?thesis
    by (cases i) (simp_all add: populate_indicators_columns nth_shift rolling_col_nth
        breakout_period_def)
next
  case False
  then obtain i' where i': "i = Suc i'" "27 \<le> i'" by (cases i) simp_all
  with assms have "rolling 28 minimum (col low df) ! i' =
      Some (minimum (map (\<lambda>j. low (candles df ! j)) [i' + 1 - 28..<i' + 1]))"
    by (simp add: rolling_col_nth)
  with assms i' show ?thesis
    by (simp add: populate_indicators_columns nth_shift breakout_period_def
        minimum_map_upt del: upt_Suc)
qed

lemma analyze_columns:
  "candles (analyze cs) = cs"
  "ema_fast (analyze cs) = ema_fast (populate_indicators (ohlcv_frame cs))"
  "ema_slow (analyze cs) = ema_slow (populate_indicators (ohlcv_frame cs))"
  "sma_trend (analyze cs) = sma_trend (populate_indicators (ohlcv_frame cs))"
  "bull_regime (analyze cs) = bull_regime (populate_indicators (ohlcv_frame cs))"
  "bear_regime (analyze cs) = bear_regime (populate_indicators (ohlcv_frame cs))"
  "highest (analyze cs) = highest (populate_indicators (ohlcv_frame cs))"
  "lowest (analyze cs) = lowest (populate_indicators (ohlcv_frame cs))"
  "volume_sma (analyze cs) = volume_sma (populate_indicators (ohlcv_frame cs))"
  "atr (analyze cs) = atr (populate_indicators (ohlcv_frame cs))"
  "atr_avg (analyze cs) = atr_avg (populate_indicators (ohlcv_frame cs))"
  "post_distribution (analyze cs) = post_distribution (populate_indicators (ohlcv_frame cs))"
  "no_atr_spike (analyze cs) = no_atr_spike (populate_indicators (ohlcv_frame cs))"
  by (simp_all add: analyze_def populate_entry_trend_keeps populate_entry_trend_columns
      populate_indicators_columns)

lemma image_const_interval_le:
  fixes h :: "nat \<Rightarrow> 'a"
  assumes "a \<le> b" "\<And>j. a \<le> j \<Longrightarrow> j \<le> b \<Longrightarrow> h j = c"
  shows "h ` {a..b} = {c}"
proof -
  have "h ` {a..b} = (\<lambda>j. c) ` {a..b}" using assms(2) by (intro image_cong) simp_all
  then show ?thesis using assms(1) by (simp add: image_constant_conv)
qed

lemma range_high_nth:
  assumes "i < length (candles df)"
  shows "range_high df ! i =
    (if i < 47 then None else Some (Max ((\<lambda>j. high (candles df ! j)) ` {i - 47..i})))"
  using assms
  by (simp add: range_high_def wyckoff_period_def rolling_col_nth maximum_map_upt
      atLeastLessThanSuc_atLeastAtMost del: upt_Suc)

lemma range_low_nth:
  assumes "i < length (candles df)"
  shows "range_low df ! i =
    (if i < 47 then None else Some (Min ((\<lambda>j. low (candles df ! j)) ` {i - 47..i})))"
  using assms
  by (simp add: range_low_def wyckoff_period_def rolling_col_nth minimum_map_upt
      atLeastLessThanSuc_atLeastAtMost del: upt_Suc)

lemma length_range [simp]:
  "length (range_high df) = length (candles df)"
  "length (range_low df) = length (candles df)"
  "length (range_size df) = length (candles df)"
  "length (range_divisor df) = length (candles df)"
  by (simp_all add: range_high_def range_low_def range_size_def range_divisor_def)

lemma range_divisor_nth:
  assumes "i < length (candles df)"
  shows "range_divisor df ! i =
    (if i < 47 then None
     else let w = Max ((\<lambda>j. high (candles df ! j)) ` {i - 47..i}) -
                  Min ((\<lambda>j. low (candles df ! j)) ` {i - 47..i})
          in Some (if w = 0 then 1 / 10 ^ 10 else w))"
  using assms
  by (simp add: range_divisor_def range_size_def nth_s_replace nth_s_sub range_high_nth
      range_low_nth Let_def)

lemma range_position_nth:
  assumes "i < length (candles df)"
  shows "range_position df ! i =
    (if i < 47 then None
     else let rl = Min ((\<lambda>j. low (candles df ! j)) ` {i - 47..i});
              w = Max ((\<lambda>j. high (candles df ! j)) ` {i - 47..i}) - rl
          in Some ((close (candles df ! i) - rl) / (if w = 0 then 1 / 10 ^ 10 else w)))"
  using assms
  by (simp add: range_position_def nth_s_div nth_s_sub nth_col range_divisor_nth
      range_low_nth Let_def)

lemma rolling_nth_values:
  assumes "i < length xs" "w \<le> i + 1"
    and "\<And>j. i + 1 - w \<le> j \<Longrightarrow> j \<le> i \<Longrightarrow> xs ! j = Some (v j)"
  shows "rolling w f xs ! i = Some (f (map v [i + 1 - w..<i + 1]))"
proof -
  have "window w xs i = map ((!) xs) [i + 1 - w..<i + 1]"
    using assms by (simp add: window_nth_conv)
  also have "\<dots> = map (\<lambda>j. Some (v j)) [i + 1 - w..<i + 1]"
    using assms(3) by (auto simp del: upt_Suc)
  finally show ?thesis using assms(1,2)
    by (simp add: nth_rolling aggregate_def del: upt_Suc)
qed

lemma length_vol_mom [simp]:
  "length (vol_surge df) = min (length (candles df)) (length (volume_sma df))"
  "length (vol_surge_short df) = min (length (candles df)) (length (volume_sma df))"
  "length (vol_surge_short_boosted df) = min (length (candles df)) (length (volume_sma df))"
  "length (mom_up df) = length (candles df)"
  "length (mom_down df) = length (candles df)"
  "length (mom_down_boosted df) = length (candles df)"
  by (simp_all add: vol_surge_def vol_surge_short_def vol_surge_short_boosted_def mom_up_def
      mom_down_def mom_down_boosted_def)

lemma short_mask_nth_masks:
  assumes "wf_frame df" "i < length (candles df)"
  shows "short_mask df ! i =
    (short_base df ! i \<and>
     (vol_surge_short df ! i \<and> mom_down df ! i \<or>
      fillna False (post_distribution df) ! i \<and> vol_surge_short_boosted df ! i \<and>
      mom_down_boosted df ! i))"
  using assms length_short_base [OF assms(1)]
  by (simp add: short_mask_def nth_m_and nth_m_or wf_frame_def Let_def)

lemma Max_indicator_pos:
  fixes P :: "nat \<Rightarrow> bool"
  assumes "a < b"
  shows "0 < Max ((\<lambda>j. if P j then 1 else (0::real)) ` {a..<b}) \<longleftrightarrow>
         (\<exists>j. a \<le> j \<and> j < b \<and> P j)"
proof -
  let ?v = "\<lambda>j. if P j then 1 else (0::real)"
  have "{a..<b} \<noteq> {}" using assms by simp
  then have ne: "?v ` {a..<b} \<noteq> {}" by blast
  have fin: "finite (?v ` {a..<b})" by (rule finite_imageI) simp
  have "0 < Max (?v ` {a..<b}) \<longleftrightarrow> (\<exists>x\<in>?v ` {a..<b}. 0 < x)"
    using fin ne by (rule Max_gr_iff)
  also have "\<dots> \<longleftrightarrow> (\<exists>j\<in>{a..<b}. 0 < ?v j)" by blast
  also have "\<dots> \<longleftrightarrow> (\<exists>j. a \<le> j \<and> j < b \<and> P j)" by (auto split: if_splits)
  finally show ?thesis .
qed

lemma post_distribution_nth:
  assumes "i < length (candles df)"
  shows "post_distribution (populate_indicators df) ! i =
    Some (48 \<le> i \<and> (\<exists>j. i - 48 \<le> j \<and> j < i \<and> distribution (populate_indicators df) ! j))"
proof -
  let ?D = "distribution (populate_indicators df)"
  let ?R = "rolling wyckoff_period maximum (astype_float ?D)"
  have len: "length ?D = length (candles df)"
    by (simp add: length_distribution populate_indicators_columns)
  have post: "post_distribution (populate_indicators df) ! i = Some (gt_o (shift 1 ?R ! i) (Some 0))"
    using assms len by (simp add: populate_indicators_post_distribution nth_s_gt_c)
  show ?thesis
  proof (cases "48 \<le> i")
    case False
    then have "shift 1 ?R ! i = None"
      using assms len by (cases i) (simp_all add: nth_shift nth_rolling wyckoff_period_def)
    with post False show ?thesis by simp
  next
    case True
    then obtain i' where i': "i = Suc i'" "47 \<le> i'" by (cases i) simp_all
    let ?v = "\<lambda>j. if ?D ! j then 1 else (0::real)"
    have "?R ! i' = Some (maximum (map ?v [i' + 1 - 48..<i' + 1]))"
      unfolding wyckoff_period_def
      using assms len i' by (intro rolling_nth_values) (simp_all add: nth_astype_float)
    then have "shift 1 ?R ! i = Some (Max (?v ` {i - 48..<i}))"
      using assms len i' by (simp add: nth_shift maximum_map_upt del: upt_Suc)
    moreover have "0 < Max (?v ` {i - 48..<i}) \<longleftrightarrow> (\<exists>j. i - 48 \<le> j \<and> j < i \<and> ?D ! j)"
      using True by (intro Max_indicator_pos) simp
    ultimately show ?thesis using post True by simp
  qed
qed



section \<open>No look-ahead: every operation commutes with taking a prefix\<close>

lemma take_df_columns [simp]:
  "candles (take_df m df) = take m (candles df)"
  "ema_fast (take_df m df) = take m (ema_fast df)"
  "ema_slow (take_df m df) = take m (ema_slow df)"
  "sma_trend (take_df m df) = take m (sma_trend df)"
  "bull_regime (take_df m df) = take m (bull_regime df)"
  "bear_regime (take_df m df) = take m (bear_regime df)"
  "highest (take_df m df) = take m (highest df)"
  "lowest (take_df m df) = take m (lowest df)"
  "volume_sma (take_df m df) = take m (volume_sma df)"
  "atr (take_df m df) = take m (atr df)"
  "atr_avg (take_df m df) = take m (atr_avg df)"
  "post_distribution (take_df m df) = take m (post_distribution df)"
  "no_atr_spike (take_df m df) = take m (no_atr_spike df)"
  "enter_long (take_df m df) = take m (enter_long df)"
  "enter_short (take_df m df) = take m (enter_short df)"
  by (simp_all add: take_df_def)

lemma take_ops:
  "take m (s_gt xs ys) = s_gt (take m xs) (take m ys)"
  "take m (s_lt xs ys) = s_lt (take m xs) (take m ys)"
  "take m (s_sub xs ys) = s_sub (take m xs) (take m ys)"
  "take m (s_div xs ys) = s_div (take m xs) (take m ys)"
  "take m (m_and bs cs) = m_and (take m bs) (take m cs)"
  "take m (m_or bs cs) = m_or (take m bs) (take m cs)"
  "take m (m_not bs) = m_not (take m bs)"
  "take m (s_gt_c xs c) = s_gt_c (take m xs) c"
  "take m (s_mul_c xs c) = s_mul_c (take m xs) c"
  "take m (s_replace a b xs) = s_replace a b (take m xs)"
  "take m (fillna d ps) = fillna d (take m ps)"
  "take m (astype_float bs) = astype_float (take m bs)"
  "take m (col f df) = col f (take_df m df)"
  "take m (SMA zs n) = SMA (take m zs) n"
  by (simp_all add: s_gt_def s_lt_def s_sub_def s_div_def m_and_def m_or_def m_not_def
      s_gt_c_def s_mul_c_def s_replace_def fillna_def astype_float_def col_def SMA_def
      take_zip take_map take_rolling)

lemma take_loc_set: "take m (loc_set bs v old) = loc_set (take m bs) v (take m old)"
  by (rule nth_equalityI) (simp_all add: nth_loc_set)

lemma take_distribution: "take m (distribution df) = distribution (take_df m df)"
  by (simp add: distribution_def atr_compressed_def range_position_def range_divisor_def
      range_size_def range_high_def range_low_def take_ops take_rolling)

lemma take_populate_indicators:
  "take_df m (populate_indicators df) = populate_indicators (take_df m df)"
proof (rule dataframe.equality)
  have d: "distribution (take_df m (populate_indicators df)) =
      distribution (populate_indicators (take_df m df))"
    by (rule distribution_cong)
      (simp_all add: populate_indicators_columns take_rolling take_ATR)
  show "post_distribution (take_df m (populate_indicators df)) =
      post_distribution (populate_indicators (take_df m df))"
    by (simp add: populate_indicators_post_distribution take_ops take_shift take_rolling
        take_map take_distribution d)
qed (simp_all add: populate_indicators_columns take_ops take_shift take_rolling take_EMA
    take_ATR take_map)

lemma take_masks:
  "take m (long_mask df) = long_mask (take_df m df)"
  "take m (short_mask df) = short_mask (take_df m df)"
  by (simp_all add: long_mask_def short_mask_def short_base_def vol_surge_def mom_up_def
      volatility_ok_def vol_surge_short_def mom_down_def vol_surge_short_boosted_def
      mom_down_boosted_def take_ops take_shift)

lemma take_populate_entry_trend:
  "take_df m (populate_entry_trend df) = populate_entry_trend (take_df m df)"
  by (rule dataframe.equality)
    (simp_all add: populate_entry_trend_columns populate_entry_trend_keeps take_loc_set
      take_masks)

lemma take_ohlcv_frame: "take_df m (ohlcv_frame cs) = ohlcv_frame (take m cs)"
  by (simp add: take_df_def ohlcv_frame_def)

lemma take_analyze: "take_df m (analyze cs) = analyze (take m cs)"
  by (simp add: analyze_def take_populate_entry_trend take_populate_indicators
      take_ohlcv_frame)

section \<open>Runs on a flat series followed by one candle\<close>

lemma mean_replicate [simp]: "0 < n \<Longrightarrow> mean (replicate n x) = x"
  by (simp add: mean_def sum_list_replicate)

lemma mean_replicate_snoc: "mean (replicate k t @ [l]) = (real k * t + l) / (real k + 1)"
  by (simp add: mean_def sum_list_replicate add.commute)

lemma maximum_replicate_snoc: "0 < k \<Longrightarrow> maximum (replicate k t @ [l]) = max l t"
  by (simp add: maximum_def)

lemma minimum_replicate_snoc: "0 < k \<Longrightarrow> minimum (replicate k t @ [l]) = min l t"
  by (simp add: minimum_def)

lemma map_if_upt:
  "a \<le> m \<Longrightarrow> map (\<lambda>j. if j < m then t else l) [a..<Suc m] = replicate (m - a) t @ [l]"
  by (rule nth_equalityI) (auto simp: nth_append simp del: upt_Suc)

lemma map_flat_snoc_upt:
  "a \<le> m \<Longrightarrow>
   map (\<lambda>j. g ((replicate m q @ [c]) ! j)) [a..<Suc m] = replicate (m - a) (g q) @ [g c]"
  by (rule nth_equalityI) (auto simp: nth_append simp del: upt_Suc)

lemma take_eq_replicate:
  "n \<le> length xs \<Longrightarrow> (\<And>j. j < n \<Longrightarrow> xs ! j = x) \<Longrightarrow> take n xs = replicate n x"
  by (rule nth_equalityI) simp_all

lemma EMA_flat:
  assumes "0 < n" "n \<le> i + 1" "i < length xs" "\<And>j. j \<le> i \<Longrightarrow> xs ! j = x"
  shows "EMA xs n ! i = Some x"
  using assms(2,3,4)
proof (induction i)
  case 0
  with assms(1) have "n = 1" by simp
  with 0 show ?case using EMA_seed [of n xs] by (cases xs) (simp_all add: mean_def)
next
  case (Suc i)
  show ?case
  proof (cases "n = Suc i + 1")
    case True
    have t: "take n xs = replicate n x"
      using Suc.prems True by (intro take_eq_replicate) simp_all
    have "mean (take n xs) = x" unfolding t using assms(1) by (rule mean_replicate)
    moreover have "EMA xs n ! (n - 1) = Some (mean (take n xs))"
      using Suc.prems True assms(1) by (intro EMA_seed) simp_all
    ultimately show ?thesis using True by simp
  next
    case False
    with Suc.prems have "n \<le> i + 1" by simp
    then have "EMA xs n ! i = Some x" using Suc by simp
    then show ?thesis
      using EMA_step [of n "Suc i" xs x] assms(1) Suc.prems \<open>n \<le> i + 1\<close> by simp
  qed
qed

lemma EMA_flat_snoc:
  assumes "0 < n" "n \<le> m"
  shows "EMA (replicate m x @ [y]) n ! m = Some ((y - x) * (2 / (real n + 1)) + x)"
proof -
  have "EMA (replicate m x @ [y]) n ! (m - 1) = Some x"
    using assms by (intro EMA_flat) (auto simp: nth_append)
  then show ?thesis
    using EMA_step [of n m "replicate m x @ [y]" x] assms by (simp add: nth_append)
qed

lemma ATR_flat:
  assumes "0 < n" "n \<le> i" "i < length cs"
    and "\<And>j. j < i \<Longrightarrow> tr (cs ! j) (cs ! Suc j) = t"
  shows "ATR cs n ! i = Some t"
  using assms(2,3,4)
proof (induction i)
  case 0
  with assms(1) show ?case by simp
next
  case (Suc i)
  show ?case
  proof (cases "n = Suc i")
    case True
    have t: "take n (true_range cs) = replicate n t"
      using Suc.prems True by (intro take_eq_replicate) (simp_all add: nth_true_range)
    have "mean (take n (true_range cs)) = t" unfolding t using assms(1) by (rule mean_replicate)
    moreover have "ATR cs n ! n = Some (mean (take n (true_range cs)))"
      using Suc.prems True assms(1) by (intro ATR_seed) simp_all
    ultimately show ?thesis using True by simp
  next
    case False
    with Suc.prems have n: "n \<le> i" by simp
    then have "ATR cs n ! i = Some t" using Suc by simp
    then have "ATR cs n ! Suc i = Some ((t * (real n - 1) + t) / real n)"
      using ATR_step [of n "Suc i" cs t] assms(1) Suc.prems n by simp
    also have "(t * (real n - 1) + t) / real n = t"
      using assms(1) by (simp add: field_simps)
    finally show ?thesis .
  qed
qed

lemma ATR_flat_prefix:
  assumes "0 < n" "n \<le> i" "i < m"
  shows "ATR (replicate m q @ c # cs) n ! i = Some (tr q q)"
  using assms by (intro ATR_flat) (simp_all add: nth_append)

lemma ATR_flat_snoc:
  assumes "0 < n" "n < m"
  shows "ATR (replicate m q @ [c]) n ! m = Some ((tr q q * (real n - 1) + tr q c) / real n)"
proof -
  have "ATR (replicate m q @ [c]) n ! (m - 1) = Some (tr q q)"
    using assms by (intro ATR_flat_prefix) simp_all
  then show ?thesis
    using ATR_step [of n m "replicate m q @ [c]" "tr q q"] assms by (simp add: nth_append)
qed

lemma rolling_col_flat_snoc:
  assumes "candles df = replicate m q @ [c]" "0 < w" "w \<le> m + 1"
  shows "rolling w f (col g df) ! m = Some (f (replicate (w - 1) (g q) @ [g c]))"
proof -
  have "map (\<lambda>j. g (candles df ! j)) [m + 1 - w..<m + 1] =
      replicate (m - (m + 1 - w)) (g q) @ [g c]"
    using assms map_flat_snoc_upt [of "m + 1 - w" m g q c] by simp
  moreover have "m - (m + 1 - w) = w - 1" using assms by arith
  ultimately show ?thesis using assms by (simp add: rolling_col_nth del: upt_Suc)
qed

lemma rolling_ATR_flat_snoc:
  assumes "0 < n" "n < m" "0 < w" "n + w \<le> m + 1"
  shows "rolling w f (ATR (replicate m q @ [c]) n) ! m =
    Some (f (replicate (w - 1) (tr q q) @ [(tr q q * (real n - 1) + tr q c) / real n]))"
proof -
  let ?l = "(tr q q * (real n - 1) + tr q c) / real n"
  let ?v = "\<lambda>j. if j < m then tr q q else ?l"
  have "rolling w f (ATR (replicate m q @ [c]) n) ! m = Some (f (map ?v [m + 1 - w..<m + 1]))"
  proof (rule rolling_nth_values)
    fix j assume j: "m + 1 - w \<le> j" "j \<le> m"
    show "ATR (replicate m q @ [c]) n ! j = Some (?v j)"
    proof (cases "j < m")
      case True
      with j assms show ?thesis by (simp add: ATR_flat_prefix)
    next
      case False
      with j have "j = m" by simp
      with assms show ?thesis by (simp add: ATR_flat_snoc)
    qed
  qed (use assms in simp_all)
  moreover have "map ?v [m + 1 - w..<m + 1] = replicate (m - (m + 1 - w)) (tr q q) @ [?l]"
    using map_if_upt [of "m + 1 - w" m "tr q q" ?l] assms by (simp del: upt_Suc)
  moreover have "m - (m + 1 - w) = w - 1" using assms by arith
  ultimately show ?thesis by simp
qed

section \<open>The indicator columns, row by row\<close>



lemma sma_trend_nth:
  assumes "i < length (candles df)"
  shows "sma_trend (populate_indicators df) ! i =
    (if i < 199 then None else Some ((\<Sum>j = i - 199..i. close (candles df ! j)) / 200))"
proof -
  have "SMA (map close (candles df)) sma_trend_period = rolling 200 mean (col close df)"
    by (simp add: SMA_def col_def sma_trend_period_def comp_def)
  with assms show ?thesis
    by (simp add: populate_indicators_columns rolling_col_nth
        mean_map_upt atLeastLessThanSuc_atLeastAtMost Suc_diff_le del: upt_Suc)
qed





section \<open>Rounding to the nearest double\<close>

lemma bitlen_unique:
  assumes "2 ^ n \<le> k" "k < 2 ^ Suc n"
  shows "bitlen k = int n + 1"
proof (rule antisym)
  show "bitlen k \<le> int n + 1" using assms(2) by (simp add: bitlen_le_iff_power nat_add_distrib)
  show "int n + 1 \<le> bitlen k" using assms(1) by (simp add: bitlen_ge_iff_power nat_add_distrib)
qed

lemma exponent_ge1:
  assumes "2 ^ n \<le> x" "x < 2 ^ Suc n"
  shows "exponent x = int n"
proof -
  have x1: "1 \<le> x" using assms(1) one_le_power [of "2::real" n] by linarith
  have "(2::int) ^ n \<le> \<lfloor>x\<rfloor>" using assms(1) by (simp add: le_floor_iff)
  moreover have "\<lfloor>x\<rfloor> < 2 ^ Suc n" using assms(2) by (simp add: floor_less_iff)
  ultimately have "bitlen \<lfloor>x\<rfloor> = int n + 1" by (rule bitlen_unique)
  with x1 show ?thesis by (simp add: exponent_def Let_def)
qed

lemma exponent_lt1:
  assumes "1 / 2 ^ n \<le> x" "x < 2 / 2 ^ n" "0 < n" "n \<le> 1022"
  shows "exponent x = - int n"
proof -
  obtain m where n: "n = Suc m" using assms(3) by (cases n) simp_all
  have "0 < 1 / (2::real) ^ n" by simp
  with assms(1) have x0: "0 < x" by linarith
  have "(1::real) \<le> 2 ^ m" by simp
  then have "2 / (2::real) ^ n \<le> 1" using n by (simp add: field_simps)
  with assms(2) have x1: "x < 1" by linarith
  have up: "1 / x \<le> 2 ^ n" using assms(1) x0 by (simp add: field_simps)
  have lo: "2 ^ m < 1 / x" using assms(2) x0 n by (simp add: field_simps)
  have "\<lceil>1 / x\<rceil> \<le> 2 ^ n" using up by (simp add: ceiling_le_iff)
  then have a: "\<lceil>1 / x\<rceil> - 1 < 2 ^ Suc m" using n by simp
  have "(2::int) ^ m < \<lceil>1 / x\<rceil>" using lo by (simp add: less_ceiling_iff)
  then have b: "2 ^ m \<le> \<lceil>1 / x\<rceil> - 1" by simp
  have "bitlen (\<lceil>1 / x\<rceil> - 1) = int m + 1" using b a by (rule bitlen_unique)
  with x0 x1 n assms(4) show ?thesis by (simp add: exponent_def Let_def)
qed

lemma fl_ge1:
  assumes "2 ^ n \<le> x" "x < 2 ^ Suc n" "n \<le> 52"
  shows "fl x = of_int (round_half_even (x * 2 ^ (52 - n))) / 2 ^ (52 - n)"
proof -
  have "0 < (2::real) ^ n" by simp
  with assms(1) have "x \<noteq> 0" by linarith
  moreover have "pow2 (int n - 52) = 1 / 2 ^ (52 - n)"
    using assms(3) by (auto simp: pow2_def nat_diff_distrib)
  moreover note exponent_ge1 [OF assms(1,2)]
  ultimately show ?thesis by (simp add: fl_def Let_def)
qed

lemma fl_lt1:
  assumes "1 / 2 ^ n \<le> x" "x < 2 / 2 ^ n" "0 < n" "n \<le> 1022"
  shows "fl x = of_int (round_half_even (x * 2 ^ (52 + n))) / 2 ^ (52 + n)"
proof -
  have "0 < 1 / (2::real) ^ n" by simp
  with assms(1) have "x \<noteq> 0" by linarith
  moreover have "pow2 (- int n - 52) = 1 / 2 ^ (52 + n)"
    by (auto simp: pow2_def nat_add_distrib)
  moreover note exponent_lt1 [OF assms]
  ultimately show ?thesis by (simp add: fl_def Let_def)
qed

text \<open>The literals and thresholds of the strategy as doubles.\<close>

lemma fl_literals:
  "fl (27 / 10) = 3039929748475085 / 2 ^ 50"
  "fl (11 / 5) = 2476979795053773 / 2 ^ 50"
  "fl (38 / 25) = 3422735716801577 / 2 ^ 51"
  "fl (51 / 50) = 2296835809958953 / 2 ^ 51"
  "fl (97 / 100) = 4368491638549381 / 2 ^ 52"
  "fl (1 / 50) = 5764607523034235 / 2 ^ 58"
  "fl (3 / 100) = 1080863910568919 / 2 ^ 55"
proof -
  show "fl (27 / 10) = 3039929748475085 / 2 ^ 50"
    by (subst fl_ge1 [of 1]) (simp_all add: round_half_even_def)
  show "fl (11 / 5) = 2476979795053773 / 2 ^ 50"
    by (subst fl_ge1 [of 1]) (simp_all add: round_half_even_def)
  show "fl (38 / 25) = 3422735716801577 / 2 ^ 51"
    by (subst fl_ge1 [of 0]) (simp_all add: round_half_even_def)
  show "fl (51 / 50) = 2296835809958953 / 2 ^ 51"
    by (subst fl_ge1 [of 0]) (simp_all add: round_half_even_def)
  show "fl (97 / 100) = 4368491638549381 / 2 ^ 52"
    by (subst fl_lt1 [of 1]) (simp_all add: round_half_even_def)
  show "fl (1 / 50) = 5764607523034235 / 2 ^ 58"
    by (subst fl_lt1 [of 6]) (simp_all add: round_half_even_def)
  show "fl (3 / 100) = 1080863910568919 / 2 ^ 55"
    by (subst fl_lt1 [of 6]) (simp_all add: round_half_even_def)
qed

lemma thresholds:
  "fadd 1 momentum_pct = fl (51 / 50)"
  "fsub 1 momentum_pct_short = fl (97 / 100)"
  "fsub 1 momentum_pct_short_boosted = 2206763817411543 / 2 ^ 51"
proof -
  show "fadd 1 momentum_pct = fl (51 / 50)"
    by (simp add: fadd_def momentum_pct_def fl_literals, subst fl_ge1 [of 0])
      (simp_all add: round_half_even_def)
  show "fsub 1 momentum_pct_short = fl (97 / 100)"
    by (simp add: fsub_def momentum_pct_short_def fl_literals, subst fl_lt1 [of 1])
      (simp_all add: round_half_even_def)
  show "fsub 1 momentum_pct_short_boosted = 2206763817411543 / 2 ^ 51"
    by (simp add: fsub_def momentum_pct_short_boosted_def fl_literals, subst fl_lt1 [of 1])
      (simp_all add: round_half_even_def)
qed

section \<open>The entry flags in terms of the column values\<close>

lemma enter_long_values:
  assumes "i < length cs" "5 \<le> i"
    and "ema_fast (analyze cs) ! i = Some ef" "ema_slow (analyze cs) ! i = Some es"
    and "highest (analyze cs) ! i = Some hh" "volume_sma (analyze cs) ! i = Some vs"
    and "atr (analyze cs) ! i = Some a" "atr_avg (analyze cs) ! i = Some aa"
  shows "enter_long (analyze cs) ! i = Some 1 \<longleftrightarrow>
     es < ef \<and> hh < close (cs ! i) \<and> es < close (cs ! i) \<and>
     fmul vs volume_mult < volume (cs ! i) \<and>
     fmul (close (cs ! (i - 5))) (fadd 1 momentum_pct) < close (cs ! i) \<and>
     a < fmul aa atr_mult_max"
proof -
  let ?df = "populate_indicators (ohlcv_frame cs)"
  have wf: "wf_frame ?df" by (rule wf_populate_indicators)
  have i: "i < length (candles ?df)" using assms(1) by (simp add: populate_indicators_columns)
  have bull: "bull_regime ?df ! i = gt_o (ema_fast ?df ! i) (ema_slow ?df ! i)"
    using assms(1) by (simp add: populate_indicators_columns nth_s_gt)
  have sh: "shift momentum_lookback (col close ?df) ! i = Some (close (cs ! (i - 5)))"
    using assms(1,2)
    by (simp add: nth_shift nth_col populate_indicators_columns momentum_lookback_def)
  show ?thesis
    using assms long_mask_nth [OF wf i] bull sh
    by (simp add: enter_long_analyze analyze_columns populate_indicators_columns(1))
qed


section \<open>The columns at the last row of a flat series followed by one candle\<close>

lemma flat_snoc_ema:
  assumes "0 < n" "n \<le> m"
  shows "EMA (map close (replicate m q @ [c])) n ! m =
    Some ((close c - close q) * (2 / (real n + 1)) + close q)"
  using EMA_flat_snoc [OF assms, of "close q" "close c"] by simp

lemma flat_snoc_columns:
  fixes m :: nat and q c :: candle
  defines "df \<equiv> analyze (replicate m q @ [c])"
  shows "40 \<le> m \<Longrightarrow> ema_fast df ! m = Some ((close c - close q) * (2 / 41) + close q)"
    and "80 \<le> m \<Longrightarrow> ema_slow df ! m = Some ((close c - close q) * (2 / 81) + close q)"
    and "199 \<le> m \<Longrightarrow> sma_trend df ! m = Some ((199 * close q + close c) / 200)"
    and "28 \<le> m \<Longrightarrow> highest df ! m = Some (high q)"
    and "28 \<le> m \<Longrightarrow> lowest df ! m = Some (low q)"
    and "19 \<le> m \<Longrightarrow> volume_sma df ! m = Some ((19 * volume q + volume c) / 20)"
    and "14 < m \<Longrightarrow> atr df ! m = Some ((tr q q * 13 + tr q c) / 14)"
    and "63 \<le> m \<Longrightarrow>
         atr_avg df ! m = Some ((49 * tr q q + (tr q q * 13 + tr q c) / 14) / 50)"
    and "33 \<le> m \<Longrightarrow>
         atr_recent_min df ! m = Some (min ((tr q q * 13 + tr q c) / 14) (tr q q))"
proof -
  let ?cs = "replicate m q @ [c]"
  let ?df = "ohlcv_frame ?cs"
  have cand: "candles ?df = ?cs" by simp
  show "40 \<le> m \<Longrightarrow> ema_fast df ! m = Some ((close c - close q) * (2 / 41) + close q)"
    using flat_snoc_ema [of 40 m q c]
    by (simp add: df_def analyze_columns populate_indicators_columns ema_fast_period_def)
  show "80 \<le> m \<Longrightarrow> ema_slow df ! m = Some ((close c - close q) * (2 / 81) + close q)"
    using flat_snoc_ema [of 80 m q c]
    by (simp add: df_def analyze_columns populate_indicators_columns ema_slow_period_def)
  show "199 \<le> m \<Longrightarrow> sma_trend df ! m = Some ((199 * close q + close c) / 200)"
    using rolling_col_flat_snoc [OF cand, of 200 mean close]
    by (simp add: df_def analyze_columns populate_indicators_columns sma_trend_period_def
        SMA_def col_def comp_def mean_replicate_snoc)
  show "28 \<le> m \<Longrightarrow> highest df ! m = Some (high q)"
  proof -
    assume m: "28 \<le> m"
    have "(\<lambda>j. high (?cs ! j)) ` {m - 28..<m} = {high q}"
      using m by (intro image_const_interval) (simp_all add: nth_append)
    with m show ?thesis by (simp add: df_def analyze_columns highest_nth)
  qed
  show "28 \<le> m \<Longrightarrow> lowest df ! m = Some (low q)"
  proof -
    assume m: "28 \<le> m"
    have "(\<lambda>j. low (?cs ! j)) ` {m - 28..<m} = {low q}"
      using m by (intro image_const_interval) (simp_all add: nth_append)
    with m show ?thesis by (simp add: df_def analyze_columns lowest_nth)
  qed
  show "19 \<le> m \<Longrightarrow> volume_sma df ! m = Some ((19 * volume q + volume c) / 20)"
    using rolling_col_flat_snoc [OF cand, of 20 mean volume]
    by (simp add: df_def analyze_columns populate_indicators_columns volume_sma_period_def
        mean_replicate_snoc)
  show "14 < m \<Longrightarrow> atr df ! m = Some ((tr q q * 13 + tr q c) / 14)"
    using ATR_flat_snoc [of 14 m q c]
    by (simp add: df_def analyze_columns populate_indicators_columns atr_period_def)
  show "63 \<le> m \<Longrightarrow>
      atr_avg df ! m = Some ((49 * tr q q + (tr q q * 13 + tr q c) / 14) / 50)"
    using rolling_ATR_flat_snoc [of 14 m 50 mean q c]
    by (simp add: df_def analyze_columns populate_indicators_columns atr_period_def
        atr_avg_period_def mean_replicate_snoc)
  show "33 \<le> m \<Longrightarrow>
      atr_recent_min df ! m = Some (min ((tr q q * 13 + tr q c) / 14) (tr q q))"
    using rolling_ATR_flat_snoc [of 14 m 20 minimum q c]
    by (simp add: df_def atr_recent_min_def analyze_columns populate_indicators_columns
        atr_period_def atr_spike_lookback_def minimum_replicate_snoc)
qed






section \<open>The concrete series\<close>

lemma quiet_fields [simp]:
  "high quiet = 101" "low quiet = 99" "close quiet = 100" "volume quiet = 1"
  "tr quiet quiet = 2"
  by (simp_all add: quiet_def tr_def)

lemma breakout_fields [simp]:
  "close breakout = 103" "volume breakout = 100" "tr quiet breakout = 3"
  by (simp_all add: breakout_def tr_def)

lemma breakdown_fields [simp]:
  "close breakdown = 96" "volume breakdown = 100" "tr quiet breakdown = 4"
  by (simp_all add: breakdown_def tr_def)

lemma soft_breakdown_fields [simp]:
  "close soft_breakdown = 195 / 2" "volume soft_breakdown = 100"
  "tr quiet soft_breakdown = 5 / 2"
  by (simp_all add: soft_breakdown_def tr_def)

lemma unit_candle_fields [simp]:
  "high unit_candle = 129 / 128" "low unit_candle = 127 / 128" "close unit_candle = 1"
  "volume unit_candle = 1" "tr unit_candle unit_candle = 1 / 64"
  by (simp_all add: unit_candle_def tr_def)

lemma edge_fields [simp]:
  "close edge_up = 2296835809958953 / 2251799813685248" "volume edge_up = 100"
  "tr unit_candle edge_up = 45035996273705 / 2251799813685248"
  "close edge_down = 4368491638549381 / 4503599627370496" "volume edge_down = 100"
  "tr unit_candle edge_down = 135107988821115 / 4503599627370496"
  by (simp_all add: edge_up_def edge_down_def tr_def fl_literals)

lemma up_series_values:
  "ema_fast (analyze up_series) ! 99 = Some (4106 / 41)"
  "ema_slow (analyze up_series) ! 99 = Some (2702 / 27)"
  "highest (analyze up_series) ! 99 = Some 101"
  "volume_sma (analyze up_series) ! 99 = Some (119 / 20)"
  "atr (analyze up_series) ! 99 = Some (29 / 14)"
  "atr_avg (analyze up_series) ! 99 = Some (1401 / 700)"
  "close (up_series ! 99) = 103" "volume (up_series ! 99) = 100"
  "close (up_series ! 94) = 100"
  using flat_snoc_columns [of 99 quiet breakout]
  by (simp_all add: up_series_def nth_append)


lemma soft_series_values:
  "ema_fast (analyze soft_series) ! 199 = Some (4095 / 41)"
  "ema_slow (analyze soft_series) ! 199 = Some (8095 / 81)"
  "sma_trend (analyze soft_series) ! 199 = Some (7999 / 80)"
  "lowest (analyze soft_series) ! 199 = Some 99"
  "volume_sma (analyze soft_series) ! 199 = Some (119 / 20)"
  "atr (analyze soft_series) ! 199 = Some (57 / 28)"
  "atr_avg (analyze soft_series) ! 199 = Some (2801 / 1400)"
  "atr_recent_min (analyze soft_series) ! 199 = Some 2"
  "close (soft_series ! 199) = 195 / 2" "volume (soft_series ! 199) = 100"
  "close (soft_series ! 194) = 100"
  using flat_snoc_columns [of 199 quiet soft_breakdown]
  by (simp_all add: soft_series_def nth_append)



text \<open>The rounded products the strategy compares against at these rows.\<close>

lemma threshold_values:
  "fmul (119 / 20) volume_mult = 4521895500856689 / 281474976710656"
  "fmul (119 / 20) volume_mult_short = 4521895500856689 / 281474976710656"
  "fmul (119 / 20) volume_mult_short_boosted = 7369014890284975 / 562949953421312"
  "fmul 100 (fadd 1 momentum_pct) = 102"
  "fmul 100 (fsub 1 momentum_pct_short) = 97"
  "fmul 100 (fsub 1 momentum_pct_short_boosted) = 98"
  "fmul 1 (fadd 1 momentum_pct) = 2296835809958953 / 2251799813685248"
  "fmul 1 (fsub 1 momentum_pct_short) = 4368491638549381 / 4503599627370496"
  "fmul 2 atr_spike_threshold = 3422735716801577 / 1125899906842624"
  "fmul (1401 / 700) atr_mult_max = 4506816484247189 / 1125899906842624"
  "fmul (701 / 350) atr_mult_max = 2255016670561941 / 562949953421312"
  "fmul (2801 / 1400) atr_mult_max = 4505208055808843 / 1125899906842624"
proof -
  show "fmul (119 / 20) volume_mult = 4521895500856689 / 281474976710656"
    by (simp add: fmul_def thresholds fl_literals volume_mult_def volume_mult_short_def
        volume_mult_short_boosted_def atr_spike_threshold_def atr_mult_max_def,
        subst fl_ge1 [of 4]) (simp_all add: round_half_even_def)
  show "fmul (119 / 20) volume_mult_short = 4521895500856689 / 281474976710656"
    by (simp add: fmul_def thresholds fl_literals volume_mult_def volume_mult_short_def
        volume_mult_short_boosted_def atr_spike_threshold_def atr_mult_max_def,
        subst fl_ge1 [of 4]) (simp_all add: round_half_even_def)
  show "fmul (119 / 20) volume_mult_short_boosted = 7369014890284975 / 562949953421312"
    by (simp add: fmul_def thresholds fl_literals volume_mult_def volume_mult_short_def
        volume_mult_short_boosted_def atr_spike_threshold_def atr_mult_max_def,
        subst fl_ge1 [of 3]) (simp_all add: round_half_even_def)
  show "fmul 100 (fadd 1 momentum_pct) = 102"
    by (simp add: fmul_def thresholds fl_literals volume_mult_def volume_mult_short_def
        volume_mult_short_boosted_def atr_spike_threshold_def atr_mult_max_def,
        subst fl_ge1 [of 6]) (simp_all add: round_half_even_def)
  show "fmul 100 (fsub 1 momentum_pct_short) = 97"
    by (simp add: fmul_def thresholds fl_literals volume_mult_def volume_mult_short_def
        volume_mult_short_boosted_def atr_spike_threshold_def atr_mult_max_def,
        subst fl_ge1 [of 6]) (simp_all add: round_half_even_def)
  show "fmul 100 (fsub 1 momentum_pct_short_boosted) = 98"
    by (simp add: fmul_def thresholds fl_literals volume_mult_def volume_mult_short_def
        volume_mult_short_boosted_def atr_spike_threshold_def atr_mult_max_def,
        subst fl_ge1 [of 6]) (simp_all add: round_half_even_def)
  show "fmul 1 (fadd 1 momentum_pct) = 2296835809958953 / 2251799813685248"
    by (simp add: fmul_def thresholds fl_literals volume_mult_def volume_mult_short_def
        volume_mult_short_boosted_def atr_spike_threshold_def atr_mult_max_def,
        subst fl_ge1 [of 0]) (simp_all add: round_half_even_def)
  show "fmul 1 (fsub 1 momentum_pct_short) = 4368491638549381 / 4503599627370496"
    by (simp add: fmul_def thresholds fl_literals volume_mult_def volume_mult_short_def
        volume_mult_short_boosted_def atr_spike_threshold_def atr_mult_max_def,
        subst fl_lt1 [of 1]) (simp_all add: round_half_even_def)
  show "fmul 2 atr_spike_threshold = 3422735716801577 / 1125899906842624"
    by (simp add: fmul_def thresholds fl_literals volume_mult_def volume_mult_short_def
        volume_mult_short_boosted_def atr_spike_threshold_def atr_mult_max_def,
        subst fl_ge1 [of 1]) (simp_all add: round_half_even_def)
  show "fmul (1401 / 700) atr_mult_max = 4506816484247189 / 1125899906842624"
    by (simp add: fmul_def thresholds fl_literals volume_mult_def volume_mult_short_def
        volume_mult_short_boosted_def atr_spike_threshold_def atr_mult_max_def,
        subst fl_ge1 [of 2]) (simp_all add: round_half_even_def)
  show "fmul (701 / 350) atr_mult_max = 2255016670561941 / 562949953421312"
    by (simp add: fmul_def thresholds fl_literals volume_mult_def volume_mult_short_def
        volume_mult_short_boosted_def atr_spike_threshold_def atr_mult_max_def,
        subst fl_ge1 [of 2]) (simp_all add: round_half_even_def)
  show "fmul (2801 / 1400) atr_mult_max = 4505208055808843 / 1125899906842624"
    by (simp add: fmul_def thresholds fl_literals volume_mult_def volume_mult_short_def
        volume_mult_short_boosted_def atr_spike_threshold_def atr_mult_max_def,
        subst fl_ge1 [of 2]) (simp_all add: round_half_even_def)
qed

section \<open>The distribution flag on the calm series\<close>



lemma calm_fields [simp]:
  "high calm = 101" "low calm = 100" "close calm = 101" "tr quiet calm = 1"
  by (simp_all add: calm_def tr_def quiet_def)






section \<open>The short-entry masks, row by row\<close>

lemma masks_post_distribution_update:
  "short_base (df\<lparr>post_distribution := x\<rparr>) = short_base df"
  "vol_surge_short (df\<lparr>post_distribution := x\<rparr>) = vol_surge_short df"
  "mom_down (df\<lparr>post_distribution := x\<rparr>) = mom_down df"
  "vol_surge_short_boosted (df\<lparr>post_distribution := x\<rparr>) = vol_surge_short_boosted df"
  "mom_down_boosted (df\<lparr>post_distribution := x\<rparr>) = mom_down_boosted df"
  by (simp_all add: short_base_def volatility_ok_def vol_surge_short_def mom_down_def
      vol_surge_short_boosted_def mom_down_boosted_def col_def)

lemma short_masks_values:
  assumes "i < length cs" "5 \<le> i"
    and "ema_fast (analyze cs) ! i = Some ef" "ema_slow (analyze cs) ! i = Some es"
    and "sma_trend (analyze cs) ! i = Some st"
    and "lowest (analyze cs) ! i = Some ll" "volume_sma (analyze cs) ! i = Some vs"
    and "atr (analyze cs) ! i = Some a" "atr_avg (analyze cs) ! i = Some aa"
    and "atr_recent_min (analyze cs) ! i = Some am"
  shows "short_base (populate_indicators (ohlcv_frame cs)) ! i =
           ((ef < es \<and> close (cs ! i) < st) \<and> close (cs ! i) < ll \<and> close (cs ! i) < es \<and>
            a < fmul aa atr_mult_max \<and> \<not> fmul am atr_spike_threshold < a)"
    and "vol_surge_short (populate_indicators (ohlcv_frame cs)) ! i =
           (fmul vs volume_mult_short < volume (cs ! i))"
    and "mom_down (populate_indicators (ohlcv_frame cs)) ! i =
           (close (cs ! i) < fmul (close (cs ! (i - 5))) (fsub 1 momentum_pct_short))"
    and "vol_surge_short_boosted (populate_indicators (ohlcv_frame cs)) ! i =
           (fmul vs volume_mult_short_boosted < volume (cs ! i))"
    and "mom_down_boosted (populate_indicators (ohlcv_frame cs)) ! i =
           (close (cs ! i) < fmul (close (cs ! (i - 5))) (fsub 1 momentum_pct_short_boosted))"
proof -
  let ?df = "populate_indicators (ohlcv_frame cs)"
  have wf: "wf_frame ?df" by (rule wf_populate_indicators)
  have i: "i < length (candles ?df)" using assms(1) by (simp add: populate_indicators_columns)
  have lens: "length (volume_sma ?df) = length cs"
    using wf by (simp add: wf_frame_def Let_def populate_indicators_columns(1))
  have bear: "bear_regime ?df ! i =
      (lt_o (ema_fast ?df ! i) (ema_slow ?df ! i) \<and>
       lt_o (Some (close (cs ! i))) (sma_trend ?df ! i))"
    using assms(1) by (simp add: populate_indicators_columns nth_s_lt nth_m_and nth_col)
  have arm: "atr_recent_min (analyze cs) = atr_recent_min ?df"
    by (simp add: atr_recent_min_def analyze_columns)
  have spike: "no_atr_spike ?df ! i =
      (\<not> gt_o (atr ?df ! i) (map_option (\<lambda>x. fmul x atr_spike_threshold) (atr_recent_min ?df ! i)))"
    using assms(1)
    by (simp add: populate_indicators_columns nth_m_not nth_s_gt nth_s_mul_c atr_recent_min_def)
  have sh: "shift momentum_lookback (col close ?df) ! i = Some (close (cs ! (i - 5)))"
    using assms(1,2)
    by (simp add: nth_shift nth_col populate_indicators_columns momentum_lookback_def)
  show "short_base ?df ! i =
           ((ef < es \<and> close (cs ! i) < st) \<and> close (cs ! i) < ll \<and> close (cs ! i) < es \<and>
            a < fmul aa atr_mult_max \<and> \<not> fmul am atr_spike_threshold < a)"
    using assms short_base_nth [OF wf i] bear spike
    by (simp add: analyze_columns populate_indicators_columns(1) arm)
  show "vol_surge_short ?df ! i = (fmul vs volume_mult_short < volume (cs ! i))"
    using assms(1,7) i lens
    by (simp add: vol_surge_short_def nth_s_gt nth_s_mul_c nth_col analyze_columns
        populate_indicators_columns(1))
  show "vol_surge_short_boosted ?df ! i = (fmul vs volume_mult_short_boosted < volume (cs ! i))"
    using assms(1,7) i lens
    by (simp add: vol_surge_short_boosted_def nth_s_gt nth_s_mul_c nth_col analyze_columns
        populate_indicators_columns(1))
  show "mom_down ?df ! i =
      (close (cs ! i) < fmul (close (cs ! (i - 5))) (fsub 1 momentum_pct_short))"
    using assms(1) i sh
    by (simp add: mom_down_def nth_s_lt nth_s_mul_c nth_col populate_indicators_columns(1))
  show "mom_down_boosted ?df ! i =
      (close (cs ! i) < fmul (close (cs ! (i - 5))) (fsub 1 momentum_pct_short_boosted))"
    using assms(1) i sh
    by (simp add: mom_down_boosted_def nth_s_lt nth_s_mul_c nth_col
        populate_indicators_columns(1))
qed

lemma soft_frame_row:
  "wf_frame (soft_frame p)"
  "length (candles (soft_frame p)) = 200"
  "post_distribution (soft_frame p) ! 199 = p"
  "enter_short (soft_frame p) = []"
  "short_base (soft_frame p) ! 199"
  "vol_surge_short_boosted (soft_frame p) ! 199"
  "mom_down_boosted (soft_frame p) ! 199"
  "\<not> mom_down (soft_frame p) ! 199"
proof -
  have len: "199 < length soft_series" "(5::nat) \<le> 199" by (simp_all add: soft_series_def)
  show "wf_frame (soft_frame p)"
    using wf_populate_indicators [of "ohlcv_frame soft_series"]
    by (simp add: soft_frame_def wf_frame_def Let_def populate_indicators_columns
        soft_series_def)
  show "length (candles (soft_frame p)) = 200"
    by (simp add: soft_frame_def populate_indicators_columns soft_series_def)
  show "post_distribution (soft_frame p) ! 199 = p" by (simp add: soft_frame_def)
  show "enter_short (soft_frame p) = []"
    by (simp add: soft_frame_def populate_indicators_columns ohlcv_frame_def)
  show "short_base (soft_frame p) ! 199"
    using short_masks_values(1) [OF len soft_series_values(1-8)]
    by (simp add: soft_frame_def masks_post_distribution_update soft_series_values
        threshold_values)
  show "vol_surge_short_boosted (soft_frame p) ! 199"
    using short_masks_values(4) [OF len soft_series_values(1-8)]
    by (simp add: soft_frame_def masks_post_distribution_update soft_series_values
        threshold_values)
  show "mom_down_boosted (soft_frame p) ! 199"
    using short_masks_values(5) [OF len soft_series_values(1-8)]
    by (simp add: soft_frame_def masks_post_distribution_update soft_series_values
        threshold_values)
  show "\<not> mom_down (soft_frame p) ! 199"
    using short_masks_values(3) [OF len soft_series_values(1-8)]
    by (simp add: soft_frame_def masks_post_distribution_update soft_series_values
        threshold_values)
qed


section \<open>The claims\<close>





text \<open>
  C3. For every candle series and every row \<open>i\<close>, \<open>enter_long\<close> and \<open>enter_short\<close> are
  never both set at \<open>i\<close>: a long needs the bull regime (fast EMA above slow EMA), a short
  the bear regime (fast EMA below slow EMA), and both cannot hold in one row.
\<close>

theorem entries_exclusive:
  assumes "i < length cs"
  shows "\<not> (enter_long (analyze cs) ! i = Some 1 \<and> enter_short (analyze cs) ! i = Some 1)"
proof
  let ?df = "populate_indicators (ohlcv_frame cs)"
  have wf: "wf_frame ?df" by (rule wf_populate_indicators)
  have i: "i < length (candles ?df)" using assms by (simp add: populate_indicators_columns)
  have len: "i < length (EMA (map close cs) ema_fast_period)"
    "i < length (EMA (map close cs) ema_slow_period)"
    "i < length (SMA (map close cs) sma_trend_period)" using assms by simp_all
  assume "enter_long (analyze cs) ! i = Some 1 \<and> enter_short (analyze cs) ! i = Some 1"
  then have l: "long_mask ?df ! i" and s: "short_mask ?df ! i"
    using assms by (simp_all add: enter_long_analyze enter_short_analyze split: if_splits)
  from l have "bull_regime ?df ! i" using long_mask_nth [OF wf i] by simp
  then have gt: "gt_o (ema_fast ?df ! i) (ema_slow ?df ! i)"
    using len by (simp add: populate_indicators_columns nth_s_gt)
  from s have "bear_regime ?df ! i"
    using short_mask_nth [OF wf i] short_base_nth [OF wf i] by simp
  then have "lt_o (ema_fast ?df ! i) (ema_slow ?df ! i)"
    using len assms by (simp add: populate_indicators_columns nth_s_lt nth_m_and)
  with gt show False by (rule gt_o_lt_o_exclusive)
qed

theorem entries_exclusive_witness:
  "(0::nat) < length [quiet] \<and>
   \<not> (enter_long (analyze [quiet]) ! 0 = Some 1 \<and> enter_short (analyze [quiet]) ! 0 = Some 1)"
  using entries_exclusive [of 0 "[quiet]"] by simp

text \<open>
  C4. No look-ahead. When two candle series agree at every row up to \<open>i\<close>, every indicator
  column and both entry flags agree at every row up to \<open>i\<close>; and running the strategy on a
  series extended by further candles reproduces, on the rows of the shorter series, exactly
  the frame computed from the shorter series.
\<close>

theorem no_look_ahead:
  "(take (Suc i) xs = take (Suc i) ys \<longrightarrow>
      take_df (Suc i) (analyze xs) = take_df (Suc i) (analyze ys)) \<and>
   take_df (length xs) (analyze (xs @ zs)) = analyze xs"
  by (simp add: take_analyze)

theorem no_look_ahead_witness:
  "take (Suc 0) [quiet] = take (Suc 0) [quiet, breakout] \<and>
   take_df (Suc 0) (analyze [quiet]) = take_df (Suc 0) (analyze [quiet, breakout]) \<and>
   take_df (length [quiet]) (analyze ([quiet] @ [breakout])) = analyze [quiet]"
  using no_look_ahead [of 0 "[quiet]" "[quiet, breakout]" "[breakout]"] by simp

text \<open>
  C5. The breakout levels at row \<open>i\<close>, \<open>highest\<close> (rolling 28-period maximum of high) and
  \<open>lowest\<close> (rolling 28-period minimum of low), are undefined for \<open>i < 28\<close> and otherwise
  the maximum (minimum) over rows \<open>i - 28 .. i - 1\<close>; replacing candle \<open>i\<close> by any other
  candle, whatever its high and low, changes neither level at row \<open>i\<close>.
\<close>

theorem breakout_levels_exclude_current:
  assumes "i < length cs"
  shows "highest (analyze cs) ! i =
           (if i < 28 then None else Some (Max ((\<lambda>j. high (cs ! j)) ` {i - 28..<i}))) \<and>
         lowest (analyze cs) ! i =
           (if i < 28 then None else Some (Min ((\<lambda>j. low (cs ! j)) ` {i - 28..<i}))) \<and>
         highest (analyze (cs[i := c])) ! i = highest (analyze cs) ! i \<and>
         lowest (analyze (cs[i := c])) ! i = lowest (analyze cs) ! i"
  using assms by (simp add: analyze_columns highest_nth lowest_nth)

theorem breakout_levels_exclude_current_witness:
  "28 < length (replicate 28 quiet @ [breakout]) \<and>
   high ((replicate 28 quiet @ [breakout]) ! 28) = 103 \<and>
   highest (analyze (replicate 28 quiet @ [breakout])) ! 28 = Some 101 \<and>
   lowest (analyze (replicate 28 quiet @ [breakout])) ! 28 = Some 99 \<and>
   highest (analyze ((replicate 28 quiet @ [breakout])[28 := quiet])) ! 28 = Some 101"
proof -
  let ?cs = "replicate 28 quiet @ [breakout]"
  have h: "(\<lambda>j. high (?cs ! j)) ` {0..<28} = {101}"
    by (rule image_const_interval) (simp_all add: nth_append quiet_def)
  have l: "(\<lambda>j. low (?cs ! j)) ` {0..<28} = {99}"
    by (rule image_const_interval) (simp_all add: nth_append quiet_def)
  have len: "28 < length ?cs" by simp
  show ?thesis
    using breakout_levels_exclude_current [OF len, of quiet] h l
    by (simp add: nth_append breakout_def quiet_def)
qed

text \<open>
  C6. What the strategy's functions themselves guarantee before the warm-up threshold comes
  from the look-back of the indicators: \<open>enter_long\<close> is unset at every row before 79
  (the slow EMA is undefined there) and \<open>enter_short\<close> at every row before 199 (the
  SMA-200 is undefined there). Neither function reads \<open>startup_candle_count\<close>.
\<close>

theorem entry_unset_before_lookback:
  assumes "i < length cs"
  shows "(i < 79 \<longrightarrow> enter_long (analyze cs) ! i = None) \<and>
         (i < 199 \<longrightarrow> enter_short (analyze cs) ! i = None)"
proof -
  let ?df = "populate_indicators (ohlcv_frame cs)"
  have wf: "wf_frame ?df" by (rule wf_populate_indicators)
  have i: "i < length (candles ?df)" using assms by (simp add: populate_indicators_columns)
  have "ema_slow ?df ! i = None" if "i < 79"
    using that assms by (simp add: populate_indicators_columns ema_slow_period_def EMA_nth_None)
  then have l: "i < 79 \<longrightarrow> enter_long (analyze cs) ! i = None"
    using long_mask_nth [OF wf i] assms by (simp add: enter_long_analyze)
  have "sma_trend ?df ! i = None" if "i < 199"
    using that assms sma_trend_nth [of i "ohlcv_frame cs"] by simp
  then have "\<not> bear_regime ?df ! i" if "i < 199"
    using that assms by (simp add: populate_indicators_columns nth_m_and nth_s_lt)
  then have "i < 199 \<longrightarrow> enter_short (analyze cs) ! i = None"
    using short_mask_nth [OF wf i] short_base_nth [OF wf i] assms
    by (simp add: enter_short_analyze)
  with l show ?thesis by simp
qed

theorem entry_unset_before_lookback_witness:
  "78 < length (replicate 79 breakout) \<and>
   enter_long (analyze (replicate 79 breakout)) ! 78 = None \<and>
   enter_short (analyze (replicate 79 breakout)) ! 78 = None"
  using entry_unset_before_lookback [of 78 "replicate 79 breakout"] by simp

text \<open>
  The claim as stated, with the threshold 250, fails: on the series of 99 quiet candles and
  a breakout candle, \<open>enter_long\<close> is set at row 99, before row \<open>startup_candle_count\<close>.
\<close>

theorem entry_before_startup_counterexample:
  "99 < startup_candle_count \<and> 99 < length up_series \<and>
   enter_long (analyze up_series) ! 99 = Some 1"
proof -
  have len: "99 < length up_series" by (simp add: up_series_def)
  have "enter_long (analyze up_series) ! 99 = Some 1"
    using enter_long_values [OF len _ up_series_values(1-6)]
    by (simp add: up_series_values threshold_values)
  with len show ?thesis by (simp add: startup_candle_count_def)
qed



text \<open>
  C8. The divisor of \<open>range_position\<close> is never zero: a range width of exactly zero is
  replaced by \<open>1e-10\<close> before the division, so the only undefined values of
  \<open>range_position\<close> are those of the first 47 rows, where the 48-row window is incomplete.
  At a row with a full window and a strictly positive range width, \<open>range_position\<close> is
  \<open>(close - range_low) / (range_high - range_low)\<close>, and it lies in \<open>[0, 1]\<close> when the
  row's candle has \<open>low \<le> close \<le> high\<close> (which validity of the whole window implies).
\<close>

theorem range_position_safe:
  assumes "i < length (candles df)"
  shows "let cs = candles df;
             rh = Max ((\<lambda>j. high (cs ! j)) ` {i - 47..i});
             rl = Min ((\<lambda>j. low (cs ! j)) ` {i - 47..i})
         in range_divisor df ! i \<noteq> Some 0 \<and>
            (range_position df ! i = None \<longleftrightarrow> i < 47) \<and>
            (47 \<le> i \<and> rh = rl \<longrightarrow> range_divisor df ! i = Some (1 / 10 ^ 10)) \<and>
            (47 \<le> i \<and> rl < rh \<longrightarrow>
               range_position df ! i = Some ((close (cs ! i) - rl) / (rh - rl))) \<and>
            (47 \<le> i \<and> rl < rh \<and> low (cs ! i) \<le> close (cs ! i) \<and> close (cs ! i) \<le> high (cs ! i) \<longrightarrow>
               (\<exists>p. range_position df ! i = Some p \<and> 0 \<le> p \<and> p \<le> 1))"
proof -
  let ?cs = "candles df"
  let ?rh = "Max ((\<lambda>j. high (?cs ! j)) ` {i - 47..i})"
  let ?rl = "Min ((\<lambda>j. low (?cs ! j)) ` {i - 47..i})"
  have d: "range_divisor df ! i \<noteq> Some 0"
    using assms by (simp add: range_divisor_nth Let_def)
  have n: "range_position df ! i = None \<longleftrightarrow> i < 47"
    using assms by (simp add: range_position_nth Let_def)
  have z: "47 \<le> i \<and> ?rh = ?rl \<longrightarrow> range_divisor df ! i = Some (1 / 10 ^ 10)"
    using assms by (simp add: range_divisor_nth Let_def)
  have v: "47 \<le> i \<and> ?rl < ?rh \<longrightarrow>
      range_position df ! i = Some ((close (?cs ! i) - ?rl) / (?rh - ?rl))"
    using assms by (simp add: range_position_nth Let_def)
  have b: "47 \<le> i \<and> ?rl < ?rh \<and> low (?cs ! i) \<le> close (?cs ! i) \<and> close (?cs ! i) \<le> high (?cs ! i) \<longrightarrow>
      (\<exists>p. range_position df ! i = Some p \<and> 0 \<le> p \<and> p \<le> 1)"
  proof (intro impI, elim conjE)
    assume a: "47 \<le> i" "?rl < ?rh" "low (?cs ! i) \<le> close (?cs ! i)"
      "close (?cs ! i) \<le> high (?cs ! i)"
    have "?rl \<le> low (?cs ! i)" by (rule Min_le) simp_all
    moreover have "high (?cs ! i) \<le> ?rh" by (rule Max_ge) simp_all
    ultimately have "0 \<le> close (?cs ! i) - ?rl" "close (?cs ! i) - ?rl \<le> ?rh - ?rl"
      using a by linarith+
    then have "0 \<le> (close (?cs ! i) - ?rl) / (?rh - ?rl)"
      "(close (?cs ! i) - ?rl) / (?rh - ?rl) \<le> 1"
      using a(2) by (simp_all add: divide_le_eq_1)
    then show "\<exists>p. range_position df ! i = Some p \<and> 0 \<le> p \<and> p \<le> 1"
      using v a by simp
  qed
  show ?thesis unfolding Let_def using d n z v b by blast
qed

theorem range_position_safe_witness:
  "47 < length (candles (ohlcv_frame (replicate 48 quiet))) \<and>
   low quiet \<le> close quiet \<and> close quiet \<le> high quiet \<and>
   range_divisor (ohlcv_frame (replicate 48 quiet)) ! 47 = Some 2 \<and>
   range_position (ohlcv_frame (replicate 48 quiet)) ! 47 = Some (1 / 2)"
proof -
  let ?df = "ohlcv_frame (replicate 48 quiet)"
  have len: "47 < length (candles ?df)" by simp
  have h: "(\<lambda>j. high (candles ?df ! j)) ` {47 - 47..47} = {101}"
    by (rule image_const_interval_le) (simp_all add: quiet_def)
  have l: "(\<lambda>j. low (candles ?df ! j)) ` {47 - 47..47} = {99}"
    by (rule image_const_interval_le) (simp_all add: quiet_def)
  have q: "low quiet = 99" "close quiet = 100" "high quiet = 101"
    by (simp_all add: quiet_def)
  have "range_position ?df ! 47 = Some (1 / 2)"
    using range_position_safe [OF len] h l q by (simp add: Let_def)
  moreover have "range_divisor ?df ! 47 = Some 2"
    using len h l by (simp add: range_divisor_nth Let_def)
  ultimately show ?thesis using q by simp
qed

text \<open>
  C9. \<open>populate_indicators\<close> and \<open>populate_entry_trend\<close> leave the candle columns
  (date, open, high, low, close, volume) of their input unchanged at every row: they only
  assign derived columns.
\<close>

theorem candles_unchanged:
  "candles (populate_indicators df) = candles df \<and>
   candles (populate_entry_trend df) = candles df \<and>
   candles (analyze cs) = cs"
  by (simp add: populate_indicators_columns populate_entry_trend_columns analyze_def)

text \<open>
  C10. \<open>post_distribution\<close> is never undefined in a frame \<open>populate_indicators\<close> builds:
  at a row with insufficient history for the shifted 48-row window (\<open>i < 48\<close>) the
  comparison \<open>> 0\<close> on the undefined rolling maximum already gives False, and
  \<open>fillna(False)\<close> changes no row. In any well-formed frame, at a row whose
  \<open>post_distribution\<close> value is not true (false, or undefined in a frame made by hand),
  the Wyckoff-boosted branch cannot cause \<open>enter_short\<close>: \<open>populate_entry_trend\<close> sets it
  there exactly when the base conditions and the standard branch hold, and leaves the row
  as it was otherwise.
\<close>

theorem post_distribution_never_undefined:
  assumes "i < length cs" and "wf_frame df" and "j < length (candles df)"
  shows "post_distribution (analyze cs) ! i \<noteq> None \<and>
         (i < 48 \<longrightarrow> post_distribution (analyze cs) ! i = Some False) \<and>
         fillna False (post_distribution (analyze cs)) ! i =
           (post_distribution (analyze cs) ! i = Some True) \<and>
         (post_distribution df ! j \<noteq> Some True \<longrightarrow>
            enter_short (populate_entry_trend df) ! j =
              (if short_base df ! j \<and> vol_surge_short df ! j \<and> mom_down df ! j then Some 1
               else if j < length (enter_short df) then enter_short df ! j else None))"
proof -
  obtain p where p: "post_distribution (analyze cs) ! i = Some p" "i < 48 \<Longrightarrow> \<not> p"
    using post_distribution_nth [of i "ohlcv_frame cs"] assms(1)
    by (simp add: analyze_columns)
  have len: "i < length (post_distribution (analyze cs))"
    using wf_populate_indicators [of "ohlcv_frame cs"] assms(1)
    by (simp add: analyze_columns wf_frame_def Let_def populate_indicators_columns(1))
  have fill: "fillna False (post_distribution (analyze cs)) ! i =
      (post_distribution (analyze cs) ! i = Some True)"
    using p(1) len by (simp add: nth_fillna)
  have "post_distribution df ! j \<noteq> Some True \<Longrightarrow> \<not> fillna False (post_distribution df) ! j"
    using assms(2,3) by (auto simp: nth_fillna wf_frame_def Let_def split: option.splits)
  then have "post_distribution df ! j \<noteq> Some True \<Longrightarrow>
      short_mask df ! j = (short_base df ! j \<and> vol_surge_short df ! j \<and> mom_down df ! j)"
    using short_mask_nth_masks [OF assms(2,3)] by simp
  moreover have "j < length (short_mask df)"
    using assms(2,3) by (simp add: length_short_mask)
  ultimately have "post_distribution df ! j \<noteq> Some True \<longrightarrow>
      enter_short (populate_entry_trend df) ! j =
        (if short_base df ! j \<and> vol_surge_short df ! j \<and> mom_down df ! j then Some 1
         else if j < length (enter_short df) then enter_short df ! j else None)"
    by (simp add: populate_entry_trend_columns nth_loc_set)
  with p fill show ?thesis by simp
qed

text \<open>
  On 199 quiet candles followed by a candle that meets the base conditions and the boosted
  thresholds but not the standard momentum threshold, \<open>enter_short\<close> stays unset when the
  \<open>post_distribution\<close> column is undefined and is set when the column is true.
\<close>

theorem post_distribution_never_undefined_witness:
  "10 < length soft_series \<and> (10::nat) < 48 \<and>
   post_distribution (analyze soft_series) ! 10 = Some False \<and>
   \<not> fillna False (post_distribution (analyze soft_series)) ! 10 \<and>
   wf_frame (soft_frame None) \<and> 199 < length (candles (soft_frame None)) \<and>
   post_distribution (soft_frame None) ! 199 = None \<and>
   short_base (soft_frame None) ! 199 \<and>
   vol_surge_short_boosted (soft_frame None) ! 199 \<and>
   mom_down_boosted (soft_frame None) ! 199 \<and>
   \<not> mom_down (soft_frame None) ! 199 \<and>
   enter_short (populate_entry_trend (soft_frame None)) ! 199 = None \<and>
   enter_short (populate_entry_trend (soft_frame (Some True))) ! 199 = Some 1"
proof -
  have len: "10 < length soft_series" by (simp add: soft_series_def)
  have j: "199 < length (candles (soft_frame p))" for p by (simp add: soft_frame_row)
  have m: "199 < length (short_mask (soft_frame p))" for p
    by (simp add: length_short_mask soft_frame_row)
  have "short_mask (soft_frame (Some True)) ! 199"
    using short_mask_nth_masks [OF soft_frame_row(1) j, of "Some True"]
      soft_frame_row(1) [of "Some True"]
    by (simp add: soft_frame_row nth_fillna wf_frame_def Let_def)
  then have set: "enter_short (populate_entry_trend (soft_frame (Some True))) ! 199 = Some 1"
    using m by (simp add: populate_entry_trend_columns nth_loc_set)
  show ?thesis
    using post_distribution_never_undefined [OF len soft_frame_row(1) j, of None] len set
    by (simp add: soft_frame_row)
qed

text \<open>
  The claim as stated speaks of rows where \<open>post_distribution\<close> is undefined for lack of
  history; there are none. At row 0 of the series above the column holds False.
\<close>

theorem post_distribution_defined_counterexample:
  "0 < length soft_series \<and> (0::nat) < 48 \<and>
   post_distribution (analyze soft_series) ! 0 \<noteq> None \<and>
   post_distribution (analyze soft_series) ! 0 = Some False"
  using post_distribution_nth [of 0 "ohlcv_frame soft_series"]
  by (simp add: analyze_columns soft_series_def)

end
